theory Spec2Isabelle
  imports Complex_Main
begin

section \<open>Python values and exceptions\<close>

text \<open>
  The two source files are Python. Values that travel through dictionaries or through an
  untyped parameter are kept as a tagged union; a dictionary literal is an association
  list in the order the source writes it. An exception is a value of \<open>error\<close>, returned
  as \<open>Inl\<close>.
\<close>

datatype pyval =
    PInt int
  | PFloat real
  | PBool bool
  | PStr string
  | PNone
  | PDict "(string \<times> pyval) list"

datatype error =
    ConfigError
  | KeyError string
  | NameError string
  | RuntimeError
  | AttributeError
  | OverflowError
  | ZeroDivisionError

section \<open>Model configuration: \<open>models/gpt2/configuration_gpt2.py\<close>\<close>

datatype activation = GELU

record attention =
  attn_master_embd :: int
  attn_n_embd :: int
  attn_n_head :: int
  attn_bias :: bool
  attn_dropout :: real
  attn_block_size :: int

record mlp =
  mlp_master_embd :: int
  mlp_n_inner :: "int option"
  mlp_bias :: bool
  mlp_dropout :: real
  mlp_activation :: activation

record block =
  block_attn :: attention
  block_mlp :: mlp

text \<open>
  Weight allocation is the only effect of building the configuration. The state threaded
  through the constructors is the list of allocations made so far, oldest first.
\<close>

datatype alloc =
    AttentionWeights int int
  | MLPWeights int

text \<open>
  Modelled from the spec: \<open>components.Attention\<close> is imported by
  \<open>configuration_gpt2.py\<close> but its module is not among the sources. The spec's contract
  for the model configuration is that an embedding width not divisible by the head count
  fails fast with a configuration error before any weight allocation; a block otherwise
  wires one attention sub-module. The constructor checks first and allocates after.
\<close>

definition Attention ::
  "int \<Rightarrow> int \<Rightarrow> int \<Rightarrow> bool \<Rightarrow> real \<Rightarrow> int \<Rightarrow> alloc list \<Rightarrow> (error + attention) \<times> alloc list" where
  "Attention master_embd n_embd n_head bias dropout block_size heap =
     (if n_embd mod n_head \<noteq> 0 then (Inl ConfigError, heap)
      else (Inr \<lparr>attn_master_embd = master_embd, attn_n_embd = n_embd, attn_n_head = n_head,
                 attn_bias = bias, attn_dropout = dropout, attn_block_size = block_size\<rparr>,
            heap @ [AttentionWeights master_embd n_embd]))"

text \<open>
  Modelled from the spec: \<open>components.MLP\<close> and \<open>components.Block\<close> are not among the
  sources either. The spec gives them no error condition: a block wires one attention
  sub-module and one feed-forward sub-module.
\<close>

definition MLP ::
  "int \<Rightarrow> int option \<Rightarrow> bool \<Rightarrow> real \<Rightarrow> activation \<Rightarrow> alloc list \<Rightarrow> mlp \<times> alloc list" where
  "MLP master_embd n_inner bias dropout act heap =
     (\<lparr>mlp_master_embd = master_embd, mlp_n_inner = n_inner, mlp_bias = bias,
       mlp_dropout = dropout, mlp_activation = act\<rparr>,
      heap @ [MLPWeights master_embd])"

definition Block :: "attention \<Rightarrow> mlp \<Rightarrow> block" where
  "Block attn m = \<lparr>block_attn = attn, block_mlp = m\<rparr>"

record GPT2Config =
  vocab_size :: pyval
  n_embd :: int
  dropout :: real
  block_size :: int
  blocks :: "block list"

text \<open>
  The per-block parameters are local constants of \<open>GPT2Config.__init__\<close>
  (``universal for GPT2''): they are not parameters of the constructor. The prefix
  \<open>init_\<close> keeps them apart from the variables of the same names in \<open>main\<close>.
\<close>

definition init_n_head :: int where "init_n_head = 12"
definition init_n_layer :: nat where "init_n_layer = 12"
definition init_bias :: bool where "init_bias = True"
definition init_n_inner :: "int option" where "init_n_inner = None"

text \<open>
  \<open>for _ in range(n_layer)\<close>: each round builds the attention module, then the
  feed-forward module, then appends the block. An exception of a constructor leaves the
  loop with the allocations made until then.
\<close>

fun build_blocks ::
  "nat \<Rightarrow> int \<Rightarrow> real \<Rightarrow> int \<Rightarrow> block list \<Rightarrow> alloc list \<Rightarrow> (error + block list) \<times> alloc list" where
  "build_blocks 0 e drp bs acc heap = (Inr acc, heap)"
| "build_blocks (Suc k) e drp bs acc heap =
     (case Attention e e init_n_head init_bias drp bs heap of
        (Inl err, heap1) \<Rightarrow> (Inl err, heap1)
      | (Inr attn, heap1) \<Rightarrow>
          (case MLP e init_n_inner init_bias drp GELU heap1 of
             (m, heap2) \<Rightarrow> build_blocks k e drp bs (acc @ [Block attn m]) heap2))"

definition GPT2Config_init ::
  "pyval \<Rightarrow> int \<Rightarrow> real \<Rightarrow> int \<Rightarrow> alloc list \<Rightarrow> (error + GPT2Config) \<times> alloc list" where
  "GPT2Config_init vocab e drp bs heap =
     (case build_blocks init_n_layer e drp bs [] heap of
        (Inl err, heap1) \<Rightarrow> (Inl err, heap1)
      | (Inr bl, heap1) \<Rightarrow>
          (Inr \<lparr>vocab_size = vocab, n_embd = e, dropout = drp, block_size = bs, blocks = bl\<rparr>,
           heap1))"

text \<open>The defaults of the constructor's signature.\<close>

definition default_vocab_size :: pyval where "default_vocab_size = PInt 50257"
definition default_n_embd :: int where "default_n_embd = 768"
definition default_drop :: real where "default_drop = 1 / 10"
definition default_block_size :: int where "default_block_size = 1024"

section \<open>The sweep driver's set-up: \<open>train/mt_sweep.py\<close>, lines 41 to 130\<close>

definition MAX_GPU_BATCH_SIZE :: int where "MAX_GPU_BATCH_SIZE = 32"
definition EVAL_BATCH_SIZE :: int where "EVAL_BATCH_SIZE = 32"
definition CONTEXT_LENGTH :: int where "CONTEXT_LENGTH = 1024"



text \<open>
  Dictionaries with string keys. \<open>d[k]\<close> raises \<open>KeyError\<close> on a missing key;
  \<open>d[k] = v\<close> replaces the value of a present key in place and appends a new key.
\<close>

definition getitem :: "(string \<times> pyval) list \<Rightarrow> string \<Rightarrow> error + pyval" where
  "getitem d k = (case map_of d k of None \<Rightarrow> Inl (KeyError k) | Some v \<Rightarrow> Inr v)"

fun setitem :: "(string \<times> pyval) list \<Rightarrow> string \<Rightarrow> pyval \<Rightarrow> (string \<times> pyval) list" where
  "setitem [] k v = [(k, v)]"
| "setitem ((k', v') # d) k v = (if k' = k then (k, v) # d else (k', v') # setitem d k v)"

text \<open>
  \<open>main\<close> binds \<open>batch_size = 64\<close> and builds \<open>train_config\<close> from it; the functions
  below take the configured batch size as their argument.
\<close>

definition main_batch_size :: int where "main_batch_size = 64"

definition train_config_init :: "int \<Rightarrow> (string \<times> pyval) list" where
  "train_config_init batch_size =
     [(''lr'', PFloat (6 / 10000)),
      (''num_epochs'', PInt 17),
      (''correct_bias'', PBool True),
      (''batch_size'', PInt batch_size),
      (''data'', PStr ''100M'')]"

text \<open>
  Lines 100 to 102. The result is the local \<open>gradient_accumulation_steps\<close> (bound only
  in the branch taken above the cap; no later statement of \<open>main\<close> reads it) and the local
  \<open>batch_size\<close>.
\<close>

definition main_batching :: "int \<Rightarrow> int option \<times> int" where
  "main_batching cfg_batch_size =
     (if cfg_batch_size > MAX_GPU_BATCH_SIZE
      then (Some (cfg_batch_size div MAX_GPU_BATCH_SIZE), MAX_GPU_BATCH_SIZE)
      else (None, cfg_batch_size))"

text \<open>Lines 104 to 109: the arguments of the two \<open>DataLoader\<close> constructions.\<close>

record 'd dataloader =
  dl_dataset :: 'd
  dl_shuffle :: bool
  dl_batch_size :: int

definition main_dataloaders :: "int \<Rightarrow> 'd \<Rightarrow> 'd \<Rightarrow> 'd dataloader \<times> 'd dataloader" where
  "main_dataloaders cfg_batch_size grouped_pad_train grouped_pad_valid =
     (let batch_size = snd (main_batching cfg_batch_size);
          eval_dataloader = \<lparr>dl_dataset = grouped_pad_valid, dl_shuffle = False,
                              dl_batch_size = EVAL_BATCH_SIZE\<rparr>;
          train_dataloader = \<lparr>dl_dataset = grouped_pad_train, dl_shuffle = True,
                               dl_batch_size = batch_size\<rparr>
      in (eval_dataloader, train_dataloader))"

text \<open>
  Lines 112 to 129. \<open>tracker_config\<close> is the configuration object of the sweep
  controller's run; \<open>randint\<close> is the value \<open>random.randint(1, 10000)\<close> returns;
  \<open>len_tokenizer\<close>, \<open>bos\<close> and \<open>eos\<close> come from the tokenizer. The result is
  \<open>train_config\<close> after line 119 and the dictionary passed to \<open>GPT2Config\<close>.
\<close>

definition main_hyperparameters ::
  "(string \<times> pyval) list \<Rightarrow> int \<Rightarrow> int \<Rightarrow> pyval \<Rightarrow> pyval
     \<Rightarrow> error + ((string \<times> pyval) list \<times> (string \<times> pyval) list)" where
  "main_hyperparameters tracker_config randint len_tokenizer bos eos =
     (case getitem tracker_config ''bottleneck'' of
        Inl err \<Rightarrow> Inl err
      | Inr bottleneck_dim \<Rightarrow>
          (case getitem tracker_config ''n_layer'' of
             Inl err \<Rightarrow> Inl err
           | Inr n_layer \<Rightarrow>
               (let seed = randint;
                    train_config = setitem (train_config_init main_batch_size) ''seed'' (PInt seed);
                    config = [(''regsize'', bottleneck_dim),
                              (''vocab_size'', PInt len_tokenizer),
                              (''n_ctx'', PInt CONTEXT_LENGTH),
                              (''bos_token_id'', bos),
                              (''eos_token_id'', eos),
                              (''bottleneck'', bottleneck_dim),
                              (''n_layer'', n_layer)]
                in Inr (train_config, config))))"

text \<open>
  Line 130, \<open>GPT2Config(config)\<close>: the dictionary is the first positional argument, so
  it is bound to \<open>vocab_size\<close>, and the other parameters take their defaults.
\<close>

definition main_GPT2Config ::
  "(string \<times> pyval) list \<Rightarrow> alloc list \<Rightarrow> (error + GPT2Config) \<times> alloc list" where
  "main_GPT2Config config heap =
     GPT2Config_init (PDict config) default_n_embd default_drop default_block_size heap"

text \<open>
  The parameter grid declared under \<open>__main__\<close> (lines 293 to 304), from which the
  sweep controller draws one value per name for each run.
\<close>

definition sweep_parameters :: "(string \<times> int list) list" where
  "sweep_parameters =
     [(''n_layer'', [5, 7]), (''bottleneck'', [788]), (''random_seed_num'', [3, 4])]"

section \<open>Evaluation: \<open>evaluate\<close>, lines 53 to 69\<close>

text \<open>
  A loss is a real number. The result of the exponential is a finite value or the
  infinity of the tensor's floating-point type. A name is bound to a tensor or to a Python
  float; only a tensor has \<open>.item()\<close>.
\<close>

datatype xfloat = Finite real | PosInf

datatype pyobj = Tensor xfloat | PyFloat xfloat

definition item :: "pyobj \<Rightarrow> error + xfloat" where
  "item obj = (case obj of Tensor x \<Rightarrow> Inr x | PyFloat x \<Rightarrow> Inl AttributeError)"

text \<open>
  What the loop writes to the outside, in the order it does: calls on the model, the
  optimizer, the scheduler and the accelerator, the line \<open>evaluate\<close> prints, the metric
  entries sent to the tracking service, and the files of a checkpoint. Progress bars,
  cache clears and the switch of gradient tracking are left out.
\<close>

datatype call =
    ModelTrain
  | ModelEval
  | Backward
  | SchedulerStep
  | OptimizerStep
  | ZeroGrad
  | WaitForEveryone
  | EndTraining

datatype logval = LFloat real | LInt int | LXFloat xfloat

datatype 'm content =
    Weights 'm
  | States nat nat 'm 'm

datatype 'm event =
    Call call
  | Print real xfloat
  | Log string logval nat
  | Mkdir string
  | Write string "'m content"

text \<open>
  The deep-learning library, the accelerator and the data are outside the repository.
  They enter as the functions the loop calls: \<open>'m\<close> is the joint state of model,
  optimizer and scheduler, \<open>'b\<close> a batch. \<open>train_batch epoch step\<close> is the batch the
  (shuffled) training loader yields at position \<open>step\<close> of its pass number \<open>epoch\<close>;
  every pass yields \<open>len_train_dataloader\<close> batches. \<open>texp\<close> is \<open>torch.exp\<close>: it
  returns a value or raises.
\<close>

record ('m, 'b) env =
  len_dataset :: nat
  len_train_dataloader :: nat
  train_batch :: "nat \<Rightarrow> nat \<Rightarrow> 'b"
  batch_rows :: "'b \<Rightarrow> int"
  train_loss :: "'m \<Rightarrow> 'b \<Rightarrow> real"
  backward :: "'m \<Rightarrow> 'b \<Rightarrow> 'm"
  scheduler_step :: "'m \<Rightarrow> 'm"
  optimizer_step :: "'m \<Rightarrow> 'm"
  zero_grad :: "'m \<Rightarrow> 'm"
  get_last_lr :: "'m \<Rightarrow> real"
  eval_batches :: "'b list"
  eval_loss :: "'m \<Rightarrow> 'b \<Rightarrow> real"
  mean_stack :: "real list \<Rightarrow> real"
  texp :: "real \<Rightarrow> error + xfloat"

text \<open>
  Lines 62 to 65: the \<open>try\<close> around the exponential. Only \<open>OverflowError\<close> is caught,
  and the handler binds a Python float.
\<close>

definition try_exp :: "(real \<Rightarrow> error + xfloat) \<Rightarrow> real \<Rightarrow> error + pyobj" where
  "try_exp f loss =
     (case f loss of
        Inr t \<Rightarrow> Inr (Tensor t)
      | Inl OverflowError \<Rightarrow> Inr (PyFloat PosInf)
      | Inl err \<Rightarrow> Inl err)"

text \<open>
  \<open>evaluate\<close> returns the pair \<open>(loss.item(), perplexity.item())\<close> and the events it
  emitted. \<open>torch.stack\<close> raises on an empty list of losses.
\<close>

definition evaluate ::
  "('m, 'b) env \<Rightarrow> 'm \<Rightarrow> error + ((real \<times> xfloat) \<times> 'm event list)" where
  "evaluate E m =
     (let losses = map (eval_loss E m) (eval_batches E)
      in if losses = [] then Inl RuntimeError
         else
           (let loss = mean_stack E losses
            in case try_exp (texp E) loss of
                 Inl err \<Rightarrow> Inl err
               | Inr perplexity \<Rightarrow>
                   (case item perplexity of
                      Inl err \<Rightarrow> Inl err
                    | Inr p \<Rightarrow> Inr ((loss, p), [Call ModelEval, Print loss p]))))"

section \<open>The training loop: \<open>main\<close>, lines 184 to 285\<close>

text \<open>\<open>str\<close> of a non-negative integer, as an f-string renders it.\<close>

definition digit_char :: "nat \<Rightarrow> char" where
  "digit_char d = char_of (48 + d)"

function str_nat :: "nat \<Rightarrow> string" where
  "str_nat n = (if n < 10 then [digit_char n] else str_nat (n div 10) @ [digit_char (n mod 10)])"
  by pat_completeness auto
termination
  by (relation "measure id") auto

declare str_nat.simps [simp del]

text \<open>The number a string of decimal digits stands for.\<close>

definition digits_value :: "string \<Rightarrow> nat" where
  "digits_value cs = foldl (\<lambda>acc c. 10 * acc + (of_char c - 48)) 0 cs"

text \<open>
  \<open>pathlib.Path\<close> of a string that begins with one slash, read back as a string: the
  string is cut at its slashes, empty components and single dots are dropped, and what
  remains is joined by single slashes under the root. Double dots stay.
\<close>

fun split_on :: "char \<Rightarrow> string \<Rightarrow> string list" where
  "split_on c [] = [[]]"
| "split_on c (x # xs) =
     (if x = c then [] # split_on c xs
      else (case split_on c xs of [] \<Rightarrow> [[x]] | w # ws \<Rightarrow> (x # w) # ws))"

fun join_path :: "string list \<Rightarrow> string" where
  "join_path [] = []"
| "join_path [w] = w"
| "join_path (w # v # ws) = w @ ''/'' @ join_path (v # ws)"

definition posix_path :: "string \<Rightarrow> string" where
  "posix_path s =
     ''/'' @ join_path (filter (\<lambda>w. w \<noteq> [] \<and> w \<noteq> ''.'') (split_on CHR ''/'' s))"

text \<open>
  The directory of a checkpoint (lines 240 to 242 and 263 to 265): the \<open>Path\<close> of an
  f-string over the data set, the model name, the run name and the step count.
\<close>

definition checkpoint_dir :: "string \<Rightarrow> string \<Rightarrow> string \<Rightarrow> nat \<Rightarrow> string" where
  "checkpoint_dir data model_name run_name absolute_step =
     posix_path (''/om2/user/jackking/MyData/mt/miniberta_'' @ data @ ''/'' @ model_name @ ''/''
       @ run_name @ ''/checkpoint_'' @ str_nat absolute_step)"

text \<open>
  The save sequence, written twice in \<open>main\<close> (lines 240 to 260 and 263 to 283): make the
  directory, wait for every worker, save the model weights into the directory, save the
  accelerator states beside them.
\<close>

definition save_checkpoint :: "'m \<Rightarrow> nat \<Rightarrow> nat \<Rightarrow> string \<Rightarrow> 'm event list" where
  "save_checkpoint m epoch step save_dir =
     [Mkdir save_dir,
      Call WaitForEveryone,
      Write save_dir (Weights m),
      Write (save_dir @ ''/accelerator_states'') (States epoch step m m)]"

text \<open>
  The variables of \<open>main\<close> that the loop updates. \<open>epoch_var\<close> and \<open>step_var\<close> are the
  loop variables, unbound until their loop has run once.
\<close>

record 'm tstate =
  model :: 'm
  data_count :: int
  absolute_step :: nat
  epoch_var :: "nat option"
  step_var :: "nat option"
  trace :: "'m event list"

text \<open>
  The two step intervals of the loop, written as literals in the source: validation runs
  when the step count is a multiple of 200, a checkpoint is saved when it is a multiple
  of 20000.
\<close>

definition eval_interval :: nat where "eval_interval = 200"
definition checkpoint_interval :: nat where "checkpoint_interval = 20000"

text \<open>
  One round of the inner loop (lines 195 to 260). \<open>mk_dir\<close> maps the step count to the
  checkpoint directory. The division by \<open>n_steps_per_epoch\<close> raises when it is zero.
\<close>

definition train_iteration ::
  "('m, 'b) env \<Rightarrow> int \<Rightarrow> (nat \<Rightarrow> string) \<Rightarrow> nat \<Rightarrow> nat \<Rightarrow> 'm tstate \<Rightarrow> error + 'm tstate" where
  "train_iteration E n_steps_per_epoch mk_dir epoch step s =
     (let batch = train_batch E epoch step;
          loss = train_loss E (model s) batch;
          m = zero_grad E (optimizer_step E (scheduler_step E (backward E (model s) batch)));
          data_count' = data_count s + batch_rows E batch;
          absolute_step' = absolute_step s + 1;
          tr1 = trace s @
                [Call Backward, Call SchedulerStep, Call OptimizerStep, Call ZeroGrad,
                 Log ''train/train_loss'' (LFloat loss) absolute_step']
      in if n_steps_per_epoch = 0 then Inl ZeroDivisionError
         else
           (let tr2 = tr1 @
                  [Log ''train/epoch''
                     (LFloat (real (absolute_step' + 1) / real_of_int n_steps_per_epoch))
                     absolute_step',
                   Log ''train/data_count'' (LInt data_count') absolute_step',
                   Log ''train/learning_rate'' (LFloat (get_last_lr E m)) absolute_step']
            in case (if absolute_step' mod eval_interval = 0
                     then (case evaluate E m of
                             Inl err \<Rightarrow> Inl err
                           | Inr ((valid_loss, valid_accuracy), evs) \<Rightarrow>
                               Inr (tr2 @ [Call ModelEval] @ evs @
                                    [Log ''validation/valid_loss'' (LFloat valid_loss)
                                       absolute_step',
                                     Log ''validation/valid_accuracy'' (LXFloat valid_accuracy)
                                       absolute_step',
                                     Call ModelTrain]))
                     else Inr tr2) of
                 Inl err \<Rightarrow> Inl err
               | Inr tr3 \<Rightarrow>
                   Inr \<lparr>model = m, data_count = data_count', absolute_step = absolute_step',
                        epoch_var = Some epoch, step_var = Some step,
                        trace = (if absolute_step' mod checkpoint_interval = 0
                                 then tr3 @ save_checkpoint m epoch step (mk_dir absolute_step')
                                 else tr3)\<rparr>))"

text \<open>\<open>for step, batch in enumerate(train_dataloader)\<close>: an exception ends the loop.\<close>

fun run_steps ::
  "('m, 'b) env \<Rightarrow> int \<Rightarrow> (nat \<Rightarrow> string) \<Rightarrow> nat \<Rightarrow> nat list \<Rightarrow> 'm tstate \<Rightarrow> error + 'm tstate" where
  "run_steps E n mk_dir epoch [] s = Inr s"
| "run_steps E n mk_dir epoch (step # steps) s =
     (case train_iteration E n mk_dir epoch step s of
        Inl err \<Rightarrow> Inl err
      | Inr s' \<Rightarrow> run_steps E n mk_dir epoch steps s')"

text \<open>\<open>for epoch in range(num_epochs)\<close>: each pass starts with \<open>model.train()\<close>.\<close>

fun run_epochs ::
  "('m, 'b) env \<Rightarrow> int \<Rightarrow> (nat \<Rightarrow> string) \<Rightarrow> nat list \<Rightarrow> 'm tstate \<Rightarrow> error + 'm tstate" where
  "run_epochs E n mk_dir [] s = Inr s"
| "run_epochs E n mk_dir (epoch # epochs) s =
     (case run_steps E n mk_dir epoch [0..<len_train_dataloader E]
             (s\<lparr>epoch_var := Some epoch, trace := trace s @ [Call ModelTrain]\<rparr>) of
        Inl err \<Rightarrow> Inl err
      | Inr s' \<Rightarrow> run_epochs E n mk_dir epochs s')"

text \<open>
  Lines 184 to 285. \<open>num_epochs\<close> is \<open>train_config["num_epochs"]\<close>, \<open>batch_size\<close> the
  local of that name, \<open>m0\<close> the state \<open>accelerator.prepare\<close> returned. The dictionary of
  the final save reads \<open>epoch\<close>, then \<open>step\<close>; an unbound one raises \<open>NameError\<close>.
\<close>

definition train_loop ::
  "('m, 'b) env \<Rightarrow> nat \<Rightarrow> int \<Rightarrow> string \<Rightarrow> string \<Rightarrow> string \<Rightarrow> 'm \<Rightarrow> error + 'm tstate" where
  "train_loop E num_epochs batch_size data model_name run_name m0 =
     (if batch_size = 0 then Inl ZeroDivisionError
      else
        (let n_steps_per_epoch = \<lceil>real (len_dataset E) / real_of_int batch_size\<rceil>;
             mk_dir = checkpoint_dir data model_name run_name;
             s0 = \<lparr>model = m0, data_count = 0, absolute_step = 0, epoch_var = None,
                   step_var = None, trace = []\<rparr>
         in case run_epochs E n_steps_per_epoch mk_dir [0..<num_epochs] s0 of
              Inl err \<Rightarrow> Inl err
            | Inr s \<Rightarrow>
                (case epoch_var s of
                   None \<Rightarrow> Inl (NameError ''epoch'')
                 | Some epoch \<Rightarrow>
                     (case step_var s of
                        None \<Rightarrow> Inl (NameError ''step'')
                      | Some step \<Rightarrow>
                          Inr (s\<lparr>trace := trace s
                                   @ save_checkpoint (model s) epoch step
                                       (mk_dir (absolute_step s))
                                   @ [Call EndTraining]\<rparr>)))))"

text \<open>The values \<open>main\<close> fixes: the epoch count, the data set and the run name.\<close>

definition main_num_epochs :: nat where "main_num_epochs = 17"
definition main_data :: string where "main_data = ''100M''"
definition main_run_name :: string where "main_run_name = ''reg_loss''"

subsection \<open>Projections of the event trace\<close>

fun update_calls :: "'m event list \<Rightarrow> call list" where
  "update_calls [] = []"
| "update_calls (Call c # es) =
     (if c \<in> {Backward, SchedulerStep, OptimizerStep, ZeroGrad} then c # update_calls es
      else update_calls es)"
| "update_calls (e # es) = update_calls es"

fun log_steps :: "'m event list \<Rightarrow> nat list" where
  "log_steps [] = []"
| "log_steps (Log k v i # es) = i # log_steps es"
| "log_steps (e # es) = log_steps es"

fun log_keys :: "'m event list \<Rightarrow> string list" where
  "log_keys [] = []"
| "log_keys (Log k v i # es) = k # log_keys es"
| "log_keys (e # es) = log_keys es"

fun logged_under :: "string \<Rightarrow> 'm event list \<Rightarrow> (logval \<times> nat) list" where
  "logged_under key [] = []"
| "logged_under key (Log k v i # es) =
     (if k = key then (v, i) # logged_under key es else logged_under key es)"
| "logged_under key (e # es) = logged_under key es"

fun printed_perplexities :: "'m event list \<Rightarrow> xfloat list" where
  "printed_perplexities [] = []"
| "printed_perplexities (Print l p # es) = p # printed_perplexities es"
| "printed_perplexities (e # es) = printed_perplexities es"

fun write_paths :: "'m event list \<Rightarrow> string list" where
  "write_paths [] = []"
| "write_paths (Write p c # es) = p # write_paths es"
| "write_paths (e # es) = write_paths es"

text \<open>The files written, each with what was written into it, in the order of writing.\<close>

fun writes :: "'m event list \<Rightarrow> (string \<times> 'm content) list" where
  "writes [] = []"
| "writes (Write p c # es) = (p, c) # writes es"
| "writes (e # es) = writes es"

text \<open>Whether \<open>sub\<close> occurs in \<open>s\<close> as a contiguous substring.\<close>

fun starts_with :: "string \<Rightarrow> string \<Rightarrow> bool" where
  "starts_with [] s = True"
| "starts_with (c # cs) [] = False"
| "starts_with (c # cs) (d # ds) = (c = d \<and> starts_with cs ds)"

fun contains :: "string \<Rightarrow> string \<Rightarrow> bool" where
  "contains sub [] = (sub = [])"
| "contains sub (c # cs) = (starts_with sub (c # cs) \<or> contains sub cs)"

subsection \<open>The events of one round, and of a run of rounds\<close>

text \<open>
  What every round of the inner loop emits (the four calls of the accumulation block and
  the four training metrics), and what it emits besides when validation is due.
\<close>

definition iteration_base ::
  "('m, 'b) env \<Rightarrow> int \<Rightarrow> nat \<Rightarrow> nat \<Rightarrow> 'm tstate \<Rightarrow> 'm event list" where
  "iteration_base E n ep st s =
     [Call Backward, Call SchedulerStep, Call OptimizerStep, Call ZeroGrad,
      Log ''train/train_loss'' (LFloat (train_loss E (model s) (train_batch E ep st)))
        (Suc (absolute_step s)),
      Log ''train/epoch'' (LFloat (real (Suc (absolute_step s) + 1) / real_of_int n))
        (Suc (absolute_step s)),
      Log ''train/data_count'' (LInt (data_count s + batch_rows E (train_batch E ep st)))
        (Suc (absolute_step s)),
      Log ''train/learning_rate''
        (LFloat (get_last_lr E (zero_grad E (optimizer_step E (scheduler_step E
                   (backward E (model s) (train_batch E ep st)))))))
        (Suc (absolute_step s))]"

definition iteration_eval :: "nat \<Rightarrow> real \<Rightarrow> xfloat \<Rightarrow> 'm event list" where
  "iteration_eval k vl va =
     [Call ModelEval, Call ModelEval, Print vl va,
      Log ''validation/valid_loss'' (LFloat vl) k,
      Log ''validation/valid_accuracy'' (LXFloat va) k, Call ModelTrain]"

definition metric_keys :: "string set" where
  "metric_keys = {''train/train_loss'', ''train/epoch'', ''train/data_count'',
     ''train/learning_rate'', ''validation/valid_loss'', ''validation/valid_accuracy''}"

text \<open>
  What stands before the last component in every checkpoint directory of a run: the
  data set, the model name and the run name decide it, the step count does not.
\<close>

definition checkpoint_base :: "string \<Rightarrow> string \<Rightarrow> string \<Rightarrow> string" where
  "checkpoint_base data mn rn =
     (let us = filter (\<lambda>w. w \<noteq> [] \<and> w \<noteq> ''.'')
                 (split_on CHR ''/'' (''/om2/user/jackking/MyData/mt/miniberta_'' @ data @ ''/''
                    @ mn @ ''/'' @ rn))
      in if us = [] then [] else ''/'' @ join_path us)"

text \<open>The two paths a checkpoint at step \<open>k\<close> writes to.\<close>

definition checkpoint_paths :: "(nat \<Rightarrow> string) \<Rightarrow> nat \<Rightarrow> string list" where
  "checkpoint_paths d k = [d k, d k @ ''/accelerator_states'']"

text \<open>
  \<open>segment_ok d a n evs\<close>: the events \<open>evs\<close> are what \<open>n\<close> rounds emit that take the step
  count from \<open>a\<close> to \<open>a + n\<close>, seen through each projection of the trace.
\<close>

definition segment_ok :: "(nat \<Rightarrow> string) \<Rightarrow> nat \<Rightarrow> nat \<Rightarrow> 'm event list \<Rightarrow> bool" where
  "segment_ok d a n evs \<longleftrightarrow>
     update_calls evs = concat (replicate n [Backward, SchedulerStep, OptimizerStep, ZeroGrad]) \<and>
     log_steps evs =
       concat (map (\<lambda>k. if k mod eval_interval = 0 then [k, k, k, k, k, k] else [k, k, k, k])
                 [Suc a..<Suc (a + n)]) \<and>
     write_paths evs =
       concat (map (checkpoint_paths d)
                 (filter (\<lambda>k. k mod checkpoint_interval = 0) [Suc a..<Suc (a + n)])) \<and>
     set (log_keys evs) \<subseteq> metric_keys \<and>
     map fst (logged_under ''validation/valid_accuracy'' evs)
       = map LXFloat (printed_perplexities evs) \<and>
     map snd (logged_under ''validation/valid_accuracy'' evs)
       = filter (\<lambda>k. k mod eval_interval = 0) [Suc a..<Suc (a + n)]"

text \<open>
  \<open>last_saved d s\<close>: if the step count of \<open>s\<close> is a multiple of the checkpoint interval,
  the trace of \<open>s\<close> ends with the save of exactly the state \<open>s\<close> holds.
\<close>

definition last_saved :: "(nat \<Rightarrow> string) \<Rightarrow> 'm tstate \<Rightarrow> bool" where
  "last_saved d s \<longleftrightarrow>
     (absolute_step s mod checkpoint_interval = 0 \<longrightarrow>
        (\<exists>pre ep st. epoch_var s = Some ep \<and> step_var s = Some st \<and>
           trace s = pre @ save_checkpoint (model s) ep st (d (absolute_step s))))"

subsection \<open>A concrete environment\<close>

text \<open>
  An exponential in the manner of a floating-point library: it never raises, and it
  yields the infinity where the exact value exceeds the largest finite value \<open>fmax\<close>.
\<close>

definition ieee_exp :: "real \<Rightarrow> real \<Rightarrow> error + xfloat" where
  "ieee_exp fmax x = Inr (if exp x \<le> fmax then Finite (exp x) else PosInf)"

text \<open>
  The smallest run: a model without state on one process, whose every loss is \<open>c\<close>,
  with \<open>L\<close> training batches of 32 rows and one validation batch.
\<close>

definition const_env :: "nat \<Rightarrow> real \<Rightarrow> real \<Rightarrow> (unit, unit) env" where
  "const_env L c fmax =
     \<lparr>len_dataset = 32 * L,
      len_train_dataloader = L,
      train_batch = (\<lambda>epoch step. ()),
      batch_rows = (\<lambda>b. 32),
      train_loss = (\<lambda>m b. c),
      backward = (\<lambda>m b. m),
      scheduler_step = (\<lambda>m. m),
      optimizer_step = (\<lambda>m. m),
      zero_grad = (\<lambda>m. m),
      get_last_lr = (\<lambda>m. 0),
      eval_batches = [()],
      eval_loss = (\<lambda>m b. c),
      mean_stack = (\<lambda>xs. sum_list xs / real (length xs)),
      texp = ieee_exp fmax\<rparr>"




section \<open>Properties of the model configuration\<close>

lemma build_blocks_ok:
  "e mod 12 = 0 \<Longrightarrow>
     \<exists>bl h. build_blocks k e drp bs acc heap = (Inr bl, h) \<and> length bl = length acc + k"
proof (induction k arbitrary: acc heap)
  case 0
  then show ?case by simp
next
  case (Suc k)
  let ?attn = "\<lparr>attn_master_embd = e, attn_n_embd = e, attn_n_head = 12,
                 attn_bias = True, attn_dropout = drp, attn_block_size = bs\<rparr>"
  from Suc.prems have a: "Attention e e init_n_head init_bias drp bs heap =
     (Inr ?attn, heap @ [AttentionWeights e e])"
    by (simp add: Attention_def init_n_head_def init_bias_def)
  obtain m heap2 where
    b: "MLP e init_n_inner init_bias drp GELU (heap @ [AttentionWeights e e]) = (m, heap2)"
    by (cases "MLP e init_n_inner init_bias drp GELU (heap @ [AttentionWeights e e])")
  obtain bl h where c: "build_blocks k e drp bs (acc @ [Block ?attn m]) heap2 = (Inr bl, h)"
    and d: "length bl = length (acc @ [Block ?attn m]) + k"
    using Suc.IH [OF Suc.prems] by blast
  show ?case
    using c d by (simp add: a b)
qed

text \<open>
  C1, as the code has it. The layer count and the head count are constants of the
  constructor, both 12: whenever the embedding width is a multiple of 12, construction
  succeeds and the stack has exactly 12 blocks, whatever is passed as first argument
  (the dictionary of \<open>main\<close>, with the layer count the sweep asks for, included).
\<close>

theorem GPT2Config_init_twelve_blocks:
  assumes "e mod 12 = 0"
  shows "\<exists>cfg heap'. GPT2Config_init v e drp bs heap = (Inr cfg, heap') \<and>
           length (blocks cfg) = 12 \<and> vocab_size cfg = v"
proof -
  obtain bl h where "build_blocks init_n_layer e drp bs [] heap = (Inr bl, h)"
    and "length bl = length ([] :: block list) + init_n_layer"
    using build_blocks_ok [OF assms, of init_n_layer drp bs "[]" heap] by blast
  then show ?thesis
    by (simp add: GPT2Config_init_def init_n_layer_def)
qed

theorem GPT2Config_init_twelve_blocks_witness:
  "(768::int) mod 12 = 0 \<and>
   (\<exists>cfg heap'. GPT2Config_init (PInt 50257) 768 (1 / 10) 1024 [] = (Inr cfg, heap') \<and>
      length (blocks cfg) = 12 \<and> vocab_size cfg = PInt 50257)"
  using GPT2Config_init_twelve_blocks [of 768 "PInt 50257" "1 / 10" 1024 "[]"] by simp

text \<open>
  C1 as stated fails: the run of the sweep that asks for 5 layers (width 768, a multiple
  of the 12 heads) gets a stack of 12 blocks.
\<close>

theorem requested_layer_count_counterexample:
  "getitem [(''regsize'', PInt 788), (''vocab_size'', PInt 50257), (''n_ctx'', PInt 1024),
            (''bos_token_id'', PInt 50256), (''eos_token_id'', PInt 50256),
            (''bottleneck'', PInt 788), (''n_layer'', PInt 5)] ''n_layer'' = Inr (PInt 5) \<and>
   map_sum id (length \<circ> blocks)
      (fst (main_GPT2Config
        [(''regsize'', PInt 788), (''vocab_size'', PInt 50257), (''n_ctx'', PInt 1024),
         (''bos_token_id'', PInt 50256), (''eos_token_id'', PInt 50256),
         (''bottleneck'', PInt 788), (''n_layer'', PInt 5)] [])) = Inr 12"
  by (simp add: main_GPT2Config_def GPT2Config_init_def init_n_layer_def eval_nat_numeral
        Attention_def MLP_def init_n_head_def default_n_embd_def getitem_def)

text \<open>
  C5. The head count of every block is the constant 12. For every embedding width that
  is not a multiple of it, construction fails with the configuration error, and the
  allocations are what they were before the call: nothing was allocated.
\<close>

theorem GPT2Config_init_rejects_indivisible:
  assumes "e mod init_n_head \<noteq> 0"
  shows "GPT2Config_init v e drp bs heap = (Inl ConfigError, heap)"
  using assms
  by (simp add: GPT2Config_init_def init_n_layer_def eval_nat_numeral Attention_def)

theorem GPT2Config_init_rejects_indivisible_witness:
  "(100::int) mod init_n_head \<noteq> 0 \<and>
   GPT2Config_init (PInt 50257) 100 (1 / 10) 1024 [] = (Inl ConfigError, [])"
proof -
  have h: "(100::int) mod init_n_head \<noteq> 0"
    by (simp add: init_n_head_def)
  show ?thesis
    using h GPT2Config_init_rejects_indivisible [OF h, of "PInt 50257" "1 / 10" 1024 "[]"]
    by simp
qed

section \<open>Properties of the set-up\<close>

lemma getitem_setitem_other:
  "k' \<noteq> k \<Longrightarrow> getitem (setitem d k v) k' = getitem d k'"
  by (induction d k v rule: setitem.induct) (auto simp: getitem_def)

lemma getitem_setitem_same: "getitem (setitem d k v) k = Inr v"
  by (induction d k v rule: setitem.induct) (auto simp: getitem_def)

text \<open>
  C3, as the code has it. The layer count and the bottleneck width reach the model's
  dictionary from the controller's configuration object. The seed does not: it is the
  value \<open>random.randint\<close> returned, and the run is the same whatever the controller
  supplies under \<open>random_seed_num\<close>.
\<close>

theorem main_hyperparameters_seed_is_drawn:
  assumes "getitem tc ''bottleneck'' = Inr b" and "getitem tc ''n_layer'' = Inr n"
  shows "\<exists>train_config config.
           main_hyperparameters tc r lt bos eos = Inr (train_config, config) \<and>
           getitem config ''bottleneck'' = Inr b \<and>
           getitem config ''n_layer'' = Inr n \<and>
           getitem train_config ''seed'' = Inr (PInt r) \<and>
           main_hyperparameters (setitem tc ''random_seed_num'' v) r lt bos eos
             = Inr (train_config, config)"
proof -
  have 1: "getitem (setitem tc ''random_seed_num'' v) ''bottleneck'' = Inr b"
    using assms(1) by (simp add: getitem_setitem_other)
  have 2: "getitem (setitem tc ''random_seed_num'' v) ''n_layer'' = Inr n"
    using assms(2) by (simp add: getitem_setitem_other)
  show ?thesis
    using assms 1 2
    by (simp add: main_hyperparameters_def getitem_setitem_same)
      (simp add: getitem_def)
qed

theorem main_hyperparameters_seed_is_drawn_witness:
  "getitem [(''n_layer'', PInt 7), (''bottleneck'', PInt 788)] ''bottleneck'' = Inr (PInt 788) \<and>
   getitem [(''n_layer'', PInt 7), (''bottleneck'', PInt 788)] ''n_layer'' = Inr (PInt 7) \<and>
   (\<exists>train_config config.
      main_hyperparameters [(''n_layer'', PInt 7), (''bottleneck'', PInt 788)]
        9001 50257 (PInt 50256) (PInt 50256) = Inr (train_config, config) \<and>
      getitem config ''bottleneck'' = Inr (PInt 788) \<and>
      getitem config ''n_layer'' = Inr (PInt 7) \<and>
      getitem train_config ''seed'' = Inr (PInt 9001) \<and>
      main_hyperparameters
        (setitem [(''n_layer'', PInt 7), (''bottleneck'', PInt 788)] ''random_seed_num'' (PInt 4))
        9001 50257 (PInt 50256) (PInt 50256) = Inr (train_config, config))"
proof -
  have 1: "getitem [(''n_layer'', PInt 7), (''bottleneck'', PInt 788)] ''bottleneck''
             = Inr (PInt 788)"
    by (simp add: getitem_def)
  have 2: "getitem [(''n_layer'', PInt 7), (''bottleneck'', PInt 788)] ''n_layer''
             = Inr (PInt 7)"
    by (simp add: getitem_def)
  show ?thesis
    using 1 2
      main_hyperparameters_seed_is_drawn [OF 1 2, of 9001 50257 "PInt 50256" "PInt 50256" "PInt 4"]
    by blast
qed

text \<open>
  C3 as stated fails: with the combination \<open>n_layer = 5\<close>, \<open>bottleneck = 788\<close>,
  \<open>random_seed_num = 3\<close> of the grid and the draw 42, the seed of \<open>train_config\<close>
  is 42, not the 3 the controller supplied.
\<close>

theorem sweep_seed_counterexample:
  "getitem [(''n_layer'', PInt 5), (''bottleneck'', PInt 788), (''random_seed_num'', PInt 3)]
      ''random_seed_num'' = Inr (PInt 3) \<and>
   map_sum id (\<lambda>r. getitem (fst r) ''seed'')
     (main_hyperparameters
        [(''n_layer'', PInt 5), (''bottleneck'', PInt 788), (''random_seed_num'', PInt 3)]
        42 50257 (PInt 50256) (PInt 50256)) = Inr (Inr (PInt 42))"
  by (simp add: main_hyperparameters_def getitem_def train_config_init_def)



text \<open>
  C9. Whatever the batch size, the training loader is built over the training split with
  shuffling on, and the validation loader over the validation split with shuffling off.
\<close>

theorem dataloaders_shuffle_train_only:
  "dl_shuffle (snd (main_dataloaders b tr va)) = True \<and>
   dl_dataset (snd (main_dataloaders b tr va)) = tr \<and>
   dl_shuffle (fst (main_dataloaders b tr va)) = False \<and>
   dl_dataset (fst (main_dataloaders b tr va)) = va"
  by (simp add: main_dataloaders_def Let_def)

section \<open>Properties of the evaluation\<close>






text \<open>
  Where the exponential returns the infinity on overflow instead of raising, the handler
  is not entered: \<open>evaluate\<close> returns the exponential of the mean loss, or the infinity.
\<close>

lemma evaluate_ieee_exp:
  assumes "eval_batches E \<noteq> []"
    and "texp E = ieee_exp fmax"
  shows "evaluate E m =
           (let loss = mean_stack E (map (eval_loss E m) (eval_batches E));
                p = (if exp loss \<le> fmax then Finite (exp loss) else PosInf)
            in Inr ((loss, p), [Call ModelEval, Print loss p]))"
  using assms by (simp add: evaluate_def Let_def try_exp_def item_def ieee_exp_def)



section \<open>The trace of the training loop\<close>

lemma evaluate_events:
  assumes "evaluate E m = Inr (r, evs)"
  shows "evs = [Call ModelEval, Print (fst r) (snd r)]"
proof -
  let ?losses = "map (eval_loss E m) (eval_batches E)"
  from assms have ne: "?losses \<noteq> []"
    by (auto simp: evaluate_def Let_def)
  from assms ne obtain obj where o: "try_exp (texp E) (mean_stack E ?losses) = Inr obj"
    by (cases "try_exp (texp E) (mean_stack E ?losses)") (simp_all add: evaluate_def Let_def)
  from assms ne o obtain p where p: "item obj = Inr p"
    by (cases "item obj") (simp_all add: evaluate_def Let_def)
  from assms ne o p show ?thesis
    by (auto simp: evaluate_def Let_def)
qed

lemma train_iteration_div0:
  "train_iteration E 0 d ep st s = Inl ZeroDivisionError"
  by (simp add: train_iteration_def Let_def)

lemma train_iteration_no_eval:
  assumes "n \<noteq> 0" and "Suc (absolute_step s) mod eval_interval \<noteq> 0"
  shows "train_iteration E n d ep st s =
     Inr \<lparr>model = zero_grad E (optimizer_step E (scheduler_step E
                    (backward E (model s) (train_batch E ep st)))),
          data_count = data_count s + batch_rows E (train_batch E ep st),
          absolute_step = Suc (absolute_step s), epoch_var = Some ep, step_var = Some st,
          trace = trace s @ iteration_base E n ep st s @ [] @
            (if Suc (absolute_step s) mod checkpoint_interval = 0
             then save_checkpoint (zero_grad E (optimizer_step E (scheduler_step E
                    (backward E (model s) (train_batch E ep st))))) ep st
                    (d (Suc (absolute_step s)))
             else [])\<rparr>"
  using assms by (simp add: train_iteration_def Let_def iteration_base_def)

lemma train_iteration_eval:
  assumes "n \<noteq> 0" and "Suc (absolute_step s) mod eval_interval = 0"
    and "evaluate E (zero_grad E (optimizer_step E (scheduler_step E
                    (backward E (model s) (train_batch E ep st))))) = Inr ((vl, va), evs)"
  shows "train_iteration E n d ep st s =
     Inr \<lparr>model = zero_grad E (optimizer_step E (scheduler_step E
                    (backward E (model s) (train_batch E ep st)))),
          data_count = data_count s + batch_rows E (train_batch E ep st),
          absolute_step = Suc (absolute_step s), epoch_var = Some ep, step_var = Some st,
          trace = trace s @ iteration_base E n ep st s @
            iteration_eval (Suc (absolute_step s)) vl va @
            (if Suc (absolute_step s) mod checkpoint_interval = 0
             then save_checkpoint (zero_grad E (optimizer_step E (scheduler_step E
                    (backward E (model s) (train_batch E ep st))))) ep st
                    (d (Suc (absolute_step s)))
             else [])\<rparr>"
  using assms(1,2) evaluate_events [OF assms(3)] assms(3)
  by (simp add: train_iteration_def Let_def iteration_base_def iteration_eval_def)

lemma train_iteration_eval_Inl:
  assumes "n \<noteq> 0" and "Suc (absolute_step s) mod eval_interval = 0"
    and "evaluate E (zero_grad E (optimizer_step E (scheduler_step E
                    (backward E (model s) (train_batch E ep st))))) = Inl err"
  shows "train_iteration E n d ep st s = Inl err"
  using assms by (simp add: train_iteration_def Let_def)

lemma update_calls_append [simp]: "update_calls (xs @ ys) = update_calls xs @ update_calls ys"
  by (induction xs rule: update_calls.induct) simp_all

lemma log_steps_append [simp]: "log_steps (xs @ ys) = log_steps xs @ log_steps ys"
  by (induction xs rule: log_steps.induct) simp_all

lemma log_keys_append [simp]: "log_keys (xs @ ys) = log_keys xs @ log_keys ys"
  by (induction xs rule: log_keys.induct) simp_all

lemma logged_under_append [simp]:
  "logged_under key (xs @ ys) = logged_under key xs @ logged_under key ys"
  by (induction key xs rule: logged_under.induct) simp_all

lemma printed_perplexities_append [simp]:
  "printed_perplexities (xs @ ys) = printed_perplexities xs @ printed_perplexities ys"
  by (induction xs rule: printed_perplexities.induct) simp_all

lemma write_paths_append [simp]: "write_paths (xs @ ys) = write_paths xs @ write_paths ys"
  by (induction xs rule: write_paths.induct) simp_all

lemma segment_ok_Nil: "segment_ok d a 0 []"
  by (simp add: segment_ok_def)

lemma segment_ok_ModelTrain: "segment_ok d a 0 [Call ModelTrain]"
  by (simp add: segment_ok_def)

lemma upt_split:
  "[Suc a..<Suc (a + (n + n'))] = [Suc a..<Suc (a + n)] @ [Suc (a + n)..<Suc (a + n + n')]"
proof -
  have "[Suc a..<Suc a + n + n'] = [Suc a..<Suc a + n] @ [Suc a + n..<Suc a + n + n']"
    by (rule upt_add_eq_append) simp
  then show ?thesis by (simp add: add.assoc)
qed

lemma segment_ok_append:
  assumes "segment_ok d a n xs" and "segment_ok d (a + n) n' ys"
  shows "segment_ok d a (n + n') (xs @ ys)"
proof -
  have u: "[Suc a..<Suc (a + (n + n'))] = [Suc a..<Suc (a + n)] @ [Suc (a + n)..<Suc (a + n + n')]"
    by (rule upt_split)
  from assms have 1: "update_calls (xs @ ys) =
      concat (replicate (n + n') [Backward, SchedulerStep, OptimizerStep, ZeroGrad])"
    by (simp add: segment_ok_def replicate_add)
  from assms have 2: "log_steps (xs @ ys) =
       concat (map (\<lambda>k. if k mod eval_interval = 0 then [k, k, k, k, k, k] else [k, k, k, k])
                 [Suc a..<Suc (a + (n + n'))])"
    unfolding u by (simp add: segment_ok_def)
  from assms have 3: "write_paths (xs @ ys) =
      concat (map (checkpoint_paths d)
        (filter (\<lambda>k. k mod checkpoint_interval = 0) [Suc a..<Suc (a + (n + n'))]))"
    unfolding u by (simp add: segment_ok_def)
  from assms have 4: "set (log_keys (xs @ ys)) \<subseteq> metric_keys"
    by (simp add: segment_ok_def)
  from assms have 5: "map fst (logged_under ''validation/valid_accuracy'' (xs @ ys))
       = map LXFloat (printed_perplexities (xs @ ys))"
    by (simp add: segment_ok_def)
  from assms have 6: "map snd (logged_under ''validation/valid_accuracy'' (xs @ ys))
       = filter (\<lambda>k. k mod eval_interval = 0) [Suc a..<Suc (a + (n + n'))]"
    unfolding u by (simp add: segment_ok_def)
  from 1 2 3 4 5 6 show ?thesis
    unfolding segment_ok_def by blast
qed

lemma eval_interval_dvd: "eval_interval dvd checkpoint_interval"
  by (simp add: eval_interval_def checkpoint_interval_def)

lemma checkpoint_imp_eval: "k mod checkpoint_interval = 0 \<Longrightarrow> k mod eval_interval = 0"
proof -
  assume "k mod checkpoint_interval = 0"
  then have "checkpoint_interval dvd k" by (simp add: dvd_eq_mod_eq_0)
  with eval_interval_dvd have "eval_interval dvd k" by (rule dvd_trans)
  then show ?thesis by (simp add: dvd_eq_mod_eq_0)
qed

lemma iteration_base_proj:
  "update_calls (iteration_base E n ep st s) = [Backward, SchedulerStep, OptimizerStep, ZeroGrad]"
  "log_steps (iteration_base E n ep st s)
     = [Suc (absolute_step s), Suc (absolute_step s), Suc (absolute_step s), Suc (absolute_step s)]"
  "write_paths (iteration_base E n ep st s) = []"
  "set (log_keys (iteration_base E n ep st s)) \<subseteq> metric_keys"
  "logged_under ''validation/valid_accuracy'' (iteration_base E n ep st s) = []"
  "printed_perplexities (iteration_base E n ep st s) = []"
  by (simp_all add: iteration_base_def metric_keys_def)

lemma iteration_eval_proj:
  "update_calls (iteration_eval k vl va) = []"
  "log_steps (iteration_eval k vl va) = [k, k]"
  "write_paths (iteration_eval k vl va) = []"
  "set (log_keys (iteration_eval k vl va)) \<subseteq> metric_keys"
  "logged_under ''validation/valid_accuracy'' (iteration_eval k vl va) = [(LXFloat va, k)]"
  "printed_perplexities (iteration_eval k vl va) = [va]"
  by (simp_all add: iteration_eval_def metric_keys_def)

lemma save_checkpoint_proj:
  "update_calls (save_checkpoint m ep st dir) = []"
  "log_steps (save_checkpoint m ep st dir) = []"
  "write_paths (save_checkpoint m ep st dir) = [dir, dir @ ''/accelerator_states'']"
  "log_keys (save_checkpoint m ep st dir) = []"
  "logged_under key (save_checkpoint m ep st dir) = []"
  "printed_perplexities (save_checkpoint m ep st dir) = []"
  by (simp_all add: save_checkpoint_def)

lemma upt_single: "[Suc a..<Suc (a + 1)] = [Suc a]"
  by simp

lemma segment_ok_single:
  fixes s :: "'m tstate"
  assumes ev: "(Suc (absolute_step s) mod eval_interval \<noteq> 0 \<and> ev = []) \<or>
               (Suc (absolute_step s) mod eval_interval = 0 \<and>
                (\<exists>vl va. ev = iteration_eval (Suc (absolute_step s)) vl va))"
  shows "segment_ok d (absolute_step s) 1
           (iteration_base E n ep st s @ ev @
            (if Suc (absolute_step s) mod checkpoint_interval = 0
             then save_checkpoint m ep st (d (Suc (absolute_step s))) else []))"
  using ev
proof
  assume a: "Suc (absolute_step s) mod eval_interval \<noteq> 0 \<and> ev = []"
  have "Suc (absolute_step s) mod checkpoint_interval \<noteq> 0"
  proof
    assume "Suc (absolute_step s) mod checkpoint_interval = 0"
    then have "Suc (absolute_step s) mod eval_interval = 0" by (rule checkpoint_imp_eval)
    with a show False by blast
  qed
  with a show ?thesis
    unfolding segment_ok_def upt_single
    by (simp add: iteration_base_proj)
next
  assume a: "Suc (absolute_step s) mod eval_interval = 0 \<and>
                (\<exists>vl va. ev = iteration_eval (Suc (absolute_step s)) vl va)"
  then obtain vl va where e: "ev = iteration_eval (Suc (absolute_step s)) vl va" by blast
  show ?thesis
  proof (cases "Suc (absolute_step s) mod checkpoint_interval = 0")
    case True
    with a show ?thesis
      unfolding segment_ok_def upt_single e
      by (simp add: iteration_base_proj iteration_eval_proj save_checkpoint_proj checkpoint_paths_def)
  next
    case False
    with a show ?thesis
      unfolding segment_ok_def upt_single e
      by (simp add: iteration_base_proj iteration_eval_proj)
  qed
qed

lemma train_iteration_Inr_shape:
  fixes s :: "'m tstate"
  assumes "train_iteration E n d ep st s = Inr s'"
  shows "\<exists>ev. ((Suc (absolute_step s) mod eval_interval \<noteq> 0 \<and> ev = []) \<or>
               (Suc (absolute_step s) mod eval_interval = 0 \<and>
                (\<exists>vl va. ev = iteration_eval (Suc (absolute_step s)) vl va))) \<and>
          s' = \<lparr>model = zero_grad E (optimizer_step E (scheduler_step E
                          (backward E (model s) (train_batch E ep st)))),
                data_count = data_count s + batch_rows E (train_batch E ep st),
                absolute_step = Suc (absolute_step s), epoch_var = Some ep, step_var = Some st,
                trace = trace s @ iteration_base E n ep st s @ ev @
                  (if Suc (absolute_step s) mod checkpoint_interval = 0
                   then save_checkpoint (zero_grad E (optimizer_step E (scheduler_step E
                          (backward E (model s) (train_batch E ep st))))) ep st
                          (d (Suc (absolute_step s)))
                   else [])\<rparr>"
proof -
  let ?k = "Suc (absolute_step s)"
  let ?m = "zero_grad E (optimizer_step E (scheduler_step E
              (backward E (model s) (train_batch E ep st))))"
  have n0: "n \<noteq> 0"
  proof
    assume "n = 0"
    with assms have "train_iteration E 0 d ep st s = Inr s'" by simp
    then show False by (simp add: train_iteration_div0)
  qed
  have flip: "Inr s' = train_iteration E n d ep st s"
    using assms by (rule sym)
  show ?thesis
  proof (cases "?k mod eval_interval = 0")
    case False
    note flip
    also note train_iteration_no_eval [OF n0 False, of E d ep st]
    finally have "s' = \<lparr>model = ?m,
                data_count = data_count s + batch_rows E (train_batch E ep st),
                absolute_step = ?k, epoch_var = Some ep, step_var = Some st,
                trace = trace s @ iteration_base E n ep st s @ [] @
                  (if ?k mod checkpoint_interval = 0
                   then save_checkpoint ?m ep st (d ?k) else [])\<rparr>"
      by (simp only: sum.inject)
    with False show ?thesis
      by (intro exI [of _ "[]"] conjI disjI1) (assumption | rule refl)+
  next
    case True
    show ?thesis
    proof (cases "evaluate E ?m")
      case (Inl err)
      note flip
      also note train_iteration_eval_Inl [OF n0 True Inl, of d]
      finally show ?thesis by (simp only: sum.distinct)
    next
      case (Inr r)
      obtain vl va evs where r: "r = ((vl, va), evs)"
        by (cases r) auto
      note flip
      also note train_iteration_eval [OF n0 True Inr [unfolded r], of d]
      finally have "s' = \<lparr>model = ?m,
                data_count = data_count s + batch_rows E (train_batch E ep st),
                absolute_step = ?k, epoch_var = Some ep, step_var = Some st,
                trace = trace s @ iteration_base E n ep st s @ iteration_eval ?k vl va @
                  (if ?k mod checkpoint_interval = 0
                   then save_checkpoint ?m ep st (d ?k) else [])\<rparr>"
        by (simp only: sum.inject)
      moreover have "\<exists>vl' va'. iteration_eval ?k vl va = (iteration_eval ?k vl' va' :: 'm event list)"
        by (intro exI) (rule refl)
      ultimately show ?thesis
        using True
        by (intro exI [of _ "iteration_eval ?k vl va"] conjI disjI2) (assumption | rule refl)+
    qed
  qed
qed

lemma train_iteration_Inr:
  fixes s :: "'m tstate"
  assumes "train_iteration E n d ep st s = Inr s'"
  shows "absolute_step s' = Suc (absolute_step s)"
    and "epoch_var s' = Some ep" and "step_var s' = Some st"
    and "\<exists>evs. trace s' = trace s @ evs \<and> segment_ok d (absolute_step s) 1 evs"
    and "last_saved d s'"
proof -
  let ?k = "Suc (absolute_step s)"
  let ?m = "zero_grad E (optimizer_step E (scheduler_step E
              (backward E (model s) (train_batch E ep st))))"
  let ?sv = "if ?k mod checkpoint_interval = 0 then save_checkpoint ?m ep st (d ?k) else []"
  from train_iteration_Inr_shape [OF assms] obtain ev where
    ev: "(?k mod eval_interval \<noteq> 0 \<and> ev = []) \<or>
               (?k mod eval_interval = 0 \<and> (\<exists>vl va. ev = iteration_eval ?k vl va))"
    and s': "s' = \<lparr>model = ?m,
                data_count = data_count s + batch_rows E (train_batch E ep st),
                absolute_step = ?k, epoch_var = Some ep, step_var = Some st,
                trace = trace s @ iteration_base E n ep st s @ ev @ ?sv\<rparr>"
    by (elim exE conjE)
  show a: "absolute_step s' = Suc (absolute_step s)"
    and e: "epoch_var s' = Some ep" and t: "step_var s' = Some st"
    by (simp_all add: s')
  have m: "model s' = ?m" by (simp add: s')
  have tr: "trace s' = trace s @ (iteration_base E n ep st s @ ev @ ?sv)"
    by (simp add: s')
  from segment_ok_single [OF ev, of d E n ep st ?m]
  have "trace s' = trace s @ (iteration_base E n ep st s @ ev @ ?sv) \<and>
        segment_ok d (absolute_step s) 1 (iteration_base E n ep st s @ ev @ ?sv)"
    using tr by (rule conjI [rotated])
  then show "\<exists>evs. trace s' = trace s @ evs \<and> segment_ok d (absolute_step s) 1 evs"
    by (rule exI)
  show "last_saved d s'"
    unfolding last_saved_def
  proof
    assume "absolute_step s' mod checkpoint_interval = 0"
    then have c: "?k mod checkpoint_interval = 0" by (simp only: a)
    then have sv: "?sv = save_checkpoint ?m ep st (d ?k)" by (rule if_P)
    have "trace s' = (trace s @ iteration_base E n ep st s @ ev) @
            save_checkpoint (model s') ep st (d (absolute_step s'))"
      unfolding tr sv m a by (simp only: append_assoc)
    with e t have "epoch_var s' = Some ep \<and> step_var s' = Some st \<and>
       trace s' = (trace s @ iteration_base E n ep st s @ ev) @
            save_checkpoint (model s') ep st (d (absolute_step s'))"
      by (intro conjI)
    then show "\<exists>pre ep st. epoch_var s' = Some ep \<and> step_var s' = Some st \<and>
           trace s' = pre @ save_checkpoint (model s') ep st (d (absolute_step s'))"
      by (intro exI)
  qed
qed

lemma run_steps_Cons_Inr:
  assumes "run_steps E n d ep (st # steps) s = Inr s'"
  obtains s1 where "train_iteration E n d ep st s = Inr s1"
    and "run_steps E n d ep steps s1 = Inr s'"
proof (cases "train_iteration E n d ep st s")
  case (Inl err)
  with assms show ?thesis by simp
next
  case (Inr s1)
  with assms have "run_steps E n d ep steps s1 = Inr s'" by simp
  with Inr show ?thesis by (rule that)
qed

lemma run_steps_Inr:
  fixes s :: "'m tstate"
  assumes "run_steps E n d ep steps s = Inr s'"
  shows "absolute_step s' = absolute_step s + length steps \<and>
         (\<exists>evs. trace s' = trace s @ evs \<and>
                segment_ok d (absolute_step s) (length steps) evs)"
  using assms
proof (induction steps arbitrary: s)
  case Nil
  then have "s' = s" by simp
  moreover have "trace s = trace s @ [] \<and> segment_ok d (absolute_step s) 0 ([] :: 'm event list)"
    by (simp add: segment_ok_Nil)
  ultimately show ?case by auto
next
  case (Cons st steps)
  from Cons.prems obtain s1 where 1: "train_iteration E n d ep st s = Inr s1"
    and 2: "run_steps E n d ep steps s1 = Inr s'"
    by (rule run_steps_Cons_Inr)
  from train_iteration_Inr(1) [OF 1] have a1: "absolute_step s1 = Suc (absolute_step s)" .
  from train_iteration_Inr(4) [OF 1] obtain evs1 where
    t1: "trace s1 = trace s @ evs1" and g1: "segment_ok d (absolute_step s) 1 evs1"
    by blast
  from Cons.IH [OF 2] obtain evs2 where
    a2: "absolute_step s' = absolute_step s1 + length steps"
    and t2: "trace s' = trace s1 @ evs2"
    and g2: "segment_ok d (absolute_step s1) (length steps) evs2"
    by blast
  from g2 a1 have g2': "segment_ok d (absolute_step s + 1) (length steps) evs2"
    by simp
  from segment_ok_append [OF g1 g2']
  have g: "segment_ok d (absolute_step s) (length (st # steps)) (evs1 @ evs2)"
    by simp
  have t: "trace s' = trace s @ (evs1 @ evs2)"
    by (simp add: t1 t2)
  have a: "absolute_step s' = absolute_step s + length (st # steps)"
    by (simp add: a1 a2)
  from a t g show ?case by blast
qed

lemma run_steps_last:
  fixes s :: "'m tstate"
  assumes "run_steps E n d ep steps s = Inr s'" and "steps \<noteq> []"
  shows "last_saved d s' \<and> epoch_var s' = Some ep \<and> step_var s' = Some (last steps)"
  using assms
proof (induction steps arbitrary: s)
  case Nil
  then show ?case by simp
next
  case (Cons st steps)
  from Cons.prems(1) obtain s1 where 1: "train_iteration E n d ep st s = Inr s1"
    and 2: "run_steps E n d ep steps s1 = Inr s'"
    by (rule run_steps_Cons_Inr)
  show ?case
  proof (cases "steps = []")
    case True
    with 2 have "s' = s1" by simp
    with train_iteration_Inr(2,3,5) [OF 1] True show ?thesis by simp
  next
    case False
    from Cons.IH [OF 2 False] False show ?thesis by simp
  qed
qed

lemma run_epochs_Cons_Inr:
  assumes "run_epochs E n d (ep # epochs) s = Inr s'"
  obtains s1 where
    "run_steps E n d ep [0..<len_train_dataloader E]
       (s\<lparr>epoch_var := Some ep, trace := trace s @ [Call ModelTrain]\<rparr>) = Inr s1"
    and "run_epochs E n d epochs s1 = Inr s'"
proof (cases "run_steps E n d ep [0..<len_train_dataloader E]
       (s\<lparr>epoch_var := Some ep, trace := trace s @ [Call ModelTrain]\<rparr>)")
  case (Inl err)
  with assms show ?thesis by simp
next
  case (Inr s1)
  with assms have "run_epochs E n d epochs s1 = Inr s'" by simp
  with Inr show ?thesis by (rule that)
qed

lemma run_epochs_Inr:
  fixes s :: "'m tstate"
  assumes "run_epochs E n d epochs s = Inr s'"
  shows "absolute_step s' = absolute_step s + length epochs * len_train_dataloader E \<and>
         (\<exists>evs. trace s' = trace s @ evs \<and>
                segment_ok d (absolute_step s) (length epochs * len_train_dataloader E) evs)"
  using assms
proof (induction epochs arbitrary: s)
  case Nil
  then have "s' = s" by simp
  moreover have "trace s = trace s @ [] \<and> segment_ok d (absolute_step s) 0 ([] :: 'm event list)"
    by (simp add: segment_ok_Nil)
  ultimately show ?case by auto
next
  case (Cons ep epochs)
  let ?L = "len_train_dataloader E"
  let ?s0 = "s\<lparr>epoch_var := Some ep, trace := trace s @ [Call ModelTrain]\<rparr>"
  from Cons.prems obtain s1 where 1: "run_steps E n d ep [0..<?L] ?s0 = Inr s1"
    and 2: "run_epochs E n d epochs s1 = Inr s'"
    by (rule run_epochs_Cons_Inr)
  from run_steps_Inr [OF 1] obtain evs1 where
    a1: "absolute_step s1 = absolute_step s + ?L"
    and t1: "trace s1 = trace s @ [Call ModelTrain] @ evs1"
    and g1: "segment_ok d (absolute_step s) ?L evs1"
    by auto
  from Cons.IH [OF 2] obtain evs2 where
    a2: "absolute_step s' = absolute_step s1 + length epochs * ?L"
    and t2: "trace s' = trace s1 @ evs2"
    and g2: "segment_ok d (absolute_step s1) (length epochs * ?L) evs2"
    by blast
  have g0: "segment_ok d (absolute_step s) 0 ([Call ModelTrain] :: 'm event list)"
    by (rule segment_ok_ModelTrain)
  from g1 have g1': "segment_ok d (absolute_step s + 0) ?L evs1" by simp
  from segment_ok_append [OF g0 g1']
  have g01: "segment_ok d (absolute_step s) ?L ([Call ModelTrain] @ evs1)" by simp
  from g2 a1 have g2': "segment_ok d (absolute_step s + ?L) (length epochs * ?L) evs2"
    by simp
  from segment_ok_append [OF g01 g2']
  have g: "segment_ok d (absolute_step s) (length (ep # epochs) * ?L)
             (([Call ModelTrain] @ evs1) @ evs2)"
    by simp
  have t: "trace s' = trace s @ (([Call ModelTrain] @ evs1) @ evs2)"
    by (simp add: t1 t2)
  have a: "absolute_step s' = absolute_step s + length (ep # epochs) * ?L"
    by (simp add: a1 a2)
  from a t g show ?case by blast
qed

lemma run_epochs_last:
  fixes s :: "'m tstate"
  assumes "run_epochs E n d epochs s = Inr s'" and "epochs \<noteq> []"
    and "0 < len_train_dataloader E"
  shows "last_saved d s' \<and> epoch_var s' = Some (last epochs) \<and>
         step_var s' = Some (len_train_dataloader E - 1)"
  using assms(1,2)
proof (induction epochs arbitrary: s)
  case Nil
  then show ?case by simp
next
  case (Cons ep epochs)
  let ?L = "len_train_dataloader E"
  let ?s0 = "s\<lparr>epoch_var := Some ep, trace := trace s @ [Call ModelTrain]\<rparr>"
  from Cons.prems(1) obtain s1 where 1: "run_steps E n d ep [0..<?L] ?s0 = Inr s1"
    and 2: "run_epochs E n d epochs s1 = Inr s'"
    by (rule run_epochs_Cons_Inr)
  show ?case
  proof (cases "epochs = []")
    case True
    with 2 have e: "s' = s1" by simp
    from assms(3) have ne: "[0..<?L] \<noteq> []" by simp
    from assms(3) have l: "last [0..<?L] = ?L - 1"
      by (cases ?L) simp_all
    from run_steps_last [OF 1 ne] e l True show ?thesis by simp
  next
    case False
    from Cons.IH [OF 2 False] False show ?thesis by simp
  qed
qed

lemma run_steps_Nil_vars:
  "run_epochs E n d epochs s = Inr s' \<Longrightarrow> len_train_dataloader E = 0 \<Longrightarrow>
     step_var s' = step_var s"
proof (induction epochs arbitrary: s)
  case Nil
  then show ?case by simp
next
  case (Cons ep epochs)
  from Cons.prems(1) obtain s1 where
    1: "run_steps E n d ep [0..<len_train_dataloader E]
          (s\<lparr>epoch_var := Some ep, trace := trace s @ [Call ModelTrain]\<rparr>) = Inr s1"
    and 2: "run_epochs E n d epochs s1 = Inr s'"
    by (rule run_epochs_Cons_Inr)
  from 1 Cons.prems(2) have "s1 = s\<lparr>epoch_var := Some ep, trace := trace s @ [Call ModelTrain]\<rparr>"
    by simp
  then have "step_var s1 = step_var s" by simp
  with Cons.IH [OF 2 Cons.prems(2)] show ?case by simp
qed

lemma train_loop_Inr:
  fixes s :: "'m tstate"
  assumes "train_loop E ne bsz data mn rn m0 = Inr s"
  obtains s1 ep st where
    "run_epochs E \<lceil>real (len_dataset E) / real_of_int bsz\<rceil> (checkpoint_dir data mn rn)
       [0..<ne]
       \<lparr>model = m0, data_count = 0, absolute_step = 0, epoch_var = None, step_var = None,
        trace = []\<rparr> = Inr s1"
    and "epoch_var s1 = Some ep" and "step_var s1 = Some st"
    and "s = s1\<lparr>trace := trace s1
             @ save_checkpoint (model s1) ep st (checkpoint_dir data mn rn (absolute_step s1))
             @ [Call EndTraining]\<rparr>"
proof -
  let ?r = "run_epochs E \<lceil>real (len_dataset E) / real_of_int bsz\<rceil>
       (checkpoint_dir data mn rn) [0..<ne]
       \<lparr>model = m0, data_count = 0, absolute_step = 0, epoch_var = None, step_var = None,
        trace = []\<rparr>"
  from assms have b: "bsz \<noteq> 0"
    by (cases "bsz = 0") (simp_all add: train_loop_def)
  show ?thesis
  proof (cases ?r)
    case (Inl err)
    with assms b show ?thesis by (simp add: train_loop_def Let_def)
  next
    case (Inr s1)
    show ?thesis
    proof (cases "epoch_var s1")
      case None
      with assms b Inr show ?thesis by (simp add: train_loop_def Let_def)
    next
      case e: (Some ep)
      show ?thesis
      proof (cases "step_var s1")
        case None
        with assms b Inr e show ?thesis by (simp add: train_loop_def Let_def)
      next
        case t: (Some st)
        from assms b Inr e t have "s = s1\<lparr>trace := trace s1
             @ save_checkpoint (model s1) ep st (checkpoint_dir data mn rn (absolute_step s1))
             @ [Call EndTraining]\<rparr>"
          by (simp add: train_loop_def Let_def)
        with Inr e t show ?thesis by (rule that)
      qed
    qed
  qed
qed

lemma run_epochs_ran:
  fixes s0 :: "'m tstate"
  assumes r: "run_epochs E n d [0..<ne] s0 = Inr s1"
    and "step_var s0 = None" and "step_var s1 = Some st"
  shows "0 < ne \<and> 0 < len_train_dataloader E"
proof (rule conjI)
  show "0 < ne"
  proof (rule ccontr)
    assume "\<not> 0 < ne"
    then have "[0..<ne] = []" by simp
    with r have "run_epochs E n d [] s0 = Inr s1" by (simp only:)
    then have "s1 = s0" by (simp only: run_epochs.simps sum.inject)
    with assms(2,3) show False by simp
  qed
  show "0 < len_train_dataloader E"
  proof (rule ccontr)
    assume "\<not> 0 < len_train_dataloader E"
    then have "len_train_dataloader E = 0" by simp
    from run_steps_Nil_vars [OF r this] assms(2,3) show False by simp
  qed
qed

lemma run_epochs_range:
  fixes s0 :: "'m tstate"
  assumes r: "run_epochs E n d [0..<ne] s0 = Inr s1"
    and ne: "0 < ne" and L: "0 < len_train_dataloader E"
  shows "absolute_step s1 = absolute_step s0 + ne * len_train_dataloader E"
    and "\<exists>evs. trace s1 = trace s0 @ evs \<and>
           segment_ok d (absolute_step s0) (ne * len_train_dataloader E) evs"
    and "last_saved d s1"
    and "epoch_var s1 = Some (ne - 1)"
    and "step_var s1 = Some (len_train_dataloader E - 1)"
proof -
  have len: "length [0..<ne] = ne" by simp
  from run_epochs_Inr [OF r, unfolded len]
  show "absolute_step s1 = absolute_step s0 + ne * len_train_dataloader E"
    and "\<exists>evs. trace s1 = trace s0 @ evs \<and>
           segment_ok d (absolute_step s0) (ne * len_train_dataloader E) evs"
    by (rule conjunct1, rule conjunct2)
  from ne have nonempty: "[0..<ne] \<noteq> []" by simp
  from ne have lst: "last [0..<ne] = ne - 1" by (cases ne) simp_all
  from run_epochs_last [OF r nonempty L, unfolded lst]
  show "last_saved d s1" and "epoch_var s1 = Some (ne - 1)"
    and "step_var s1 = Some (len_train_dataloader E - 1)"
    by (rule conjunct1, (rule conjunct2 [THEN conjunct1]), (rule conjunct2 [THEN conjunct2]))
qed

lemma train_loop_summary:
  fixes s :: "'m tstate"
  assumes "train_loop E ne bsz data mn rn m0 = Inr s"
  shows "0 < ne" and "0 < len_train_dataloader E"
    and "absolute_step s = ne * len_train_dataloader E"
    and "\<exists>evs. trace s = evs @
        save_checkpoint (model s) (ne - 1) (len_train_dataloader E - 1)
          (checkpoint_dir data mn rn (ne * len_train_dataloader E)) @ [Call EndTraining] \<and>
      segment_ok (checkpoint_dir data mn rn) 0 (ne * len_train_dataloader E) evs \<and>
      ((ne * len_train_dataloader E) mod checkpoint_interval = 0 \<longrightarrow>
         (\<exists>pre. evs = pre @ save_checkpoint (model s) (ne - 1) (len_train_dataloader E - 1)
                   (checkpoint_dir data mn rn (ne * len_train_dataloader E))))"
proof -
  let ?L = "len_train_dataloader E"
  let ?N = "ne * len_train_dataloader E"
  let ?d = "checkpoint_dir data mn rn"
  let ?s0 = "\<lparr>model = m0, data_count = 0, absolute_step = 0, epoch_var = None,
              step_var = None, trace = []\<rparr> :: 'm tstate"
  from assms obtain s1 ep st where
    r: "run_epochs E \<lceil>real (len_dataset E) / real_of_int bsz\<rceil> ?d [0..<ne] ?s0 = Inr s1"
    and e: "epoch_var s1 = Some ep" and t: "step_var s1 = Some st"
    and s: "s = s1\<lparr>trace := trace s1
             @ save_checkpoint (model s1) ep st (?d (absolute_step s1))
             @ [Call EndTraining]\<rparr>"
    by (rule train_loop_Inr)
  have v0: "step_var ?s0 = None" by simp
  have a0: "absolute_step ?s0 = 0" by simp
  have t0: "trace ?s0 = []" by simp
  from run_epochs_ran [OF r v0 t] show ne: "0 < ne" and L: "0 < ?L"
    by (rule conjunct1, rule conjunct2)
  note rng = run_epochs_range [OF r ne L]
  from rng(1) have a: "absolute_step s1 = ?N" unfolding a0 by simp
  from rng(2) obtain evs where tr: "trace s1 = evs" and g: "segment_ok ?d 0 ?N evs"
    unfolding a0 t0 by auto
  from rng(4) e have ep: "ep = ne - 1" by simp
  from rng(5) t have st: "st = ?L - 1" by simp
  have ms: "model s = model s1" unfolding s by simp
  show "absolute_step s = ?N" unfolding s using a by simp
  have 2: "trace s = evs @ save_checkpoint (model s) (ne - 1) (?L - 1) (?d ?N)
             @ [Call EndTraining]"
    unfolding ms unfolding s using tr a ep st by simp
  have 3: "?N mod checkpoint_interval = 0 \<longrightarrow>
         (\<exists>pre. evs = pre @ save_checkpoint (model s) (ne - 1) (?L - 1) (?d ?N))"
  proof
    assume "?N mod checkpoint_interval = 0"
    then have "absolute_step s1 mod checkpoint_interval = 0" unfolding a .
    with rng(3) obtain pre ep' st' where e': "epoch_var s1 = Some ep'"
      and t': "step_var s1 = Some st'"
      and p: "trace s1 = pre @ save_checkpoint (model s1) ep' st' (?d (absolute_step s1))"
      unfolding last_saved_def by blast
    from e e' ep have 1: "ep' = ne - 1" by simp
    from t t' st have 2: "st' = ?L - 1" by simp
    from p have "evs = pre @ save_checkpoint (model s) (ne - 1) (?L - 1) (?d ?N)"
      unfolding 1 2 a tr ms .
    then show "\<exists>pre. evs = pre @ save_checkpoint (model s) (ne - 1) (?L - 1) (?d ?N)"
      by (rule exI)
  qed
  from 2 g 3 have "trace s = evs @ save_checkpoint (model s) (ne - 1) (?L - 1) (?d ?N)
             @ [Call EndTraining] \<and> segment_ok ?d 0 ?N evs \<and>
      (?N mod checkpoint_interval = 0 \<longrightarrow>
         (\<exists>pre. evs = pre @ save_checkpoint (model s) (ne - 1) (?L - 1) (?d ?N)))"
    by (intro conjI)
  then show "\<exists>evs. trace s = evs @
        save_checkpoint (model s) (ne - 1) (?L - 1) (?d ?N) @ [Call EndTraining] \<and>
      segment_ok ?d 0 ?N evs \<and>
      (?N mod checkpoint_interval = 0 \<longrightarrow>
         (\<exists>pre. evs = pre @ save_checkpoint (model s) (ne - 1) (?L - 1) (?d ?N)))"
    by (rule exI)
qed

lemma train_iteration_succeeds:
  fixes s :: "'m tstate"
  assumes n0: "n \<noteq> 0" and ev: "\<And>m. \<exists>r. evaluate E m = Inr r"
  shows "\<exists>s'. train_iteration E n d ep st s = Inr s'"
proof (cases "Suc (absolute_step s) mod eval_interval = 0")
  case False
  from train_iteration_no_eval [OF n0 False, of E d ep st] show ?thesis by (rule exI)
next
  case True
  let ?m = "zero_grad E (optimizer_step E (scheduler_step E
              (backward E (model s) (train_batch E ep st))))"
  from ev obtain r where "evaluate E ?m = Inr r" by blast
  moreover obtain vl va evs where "r = ((vl, va), evs)" by (cases r) auto
  ultimately have "evaluate E ?m = Inr ((vl, va), evs)" by simp
  from train_iteration_eval [OF n0 True this, of d] show ?thesis by (rule exI)
qed

lemma run_steps_succeeds:
  fixes s :: "'m tstate"
  assumes n0: "n \<noteq> 0" and ev: "\<And>m. \<exists>r. evaluate E m = Inr r"
  shows "\<exists>s'. run_steps E n d ep steps s = Inr s'"
proof (induction steps arbitrary: s)
  case Nil
  show ?case by simp
next
  case (Cons st steps)
  from train_iteration_succeeds [OF n0 ev] obtain s1 where
    1: "train_iteration E n d ep st s = Inr s1" by blast
  from Cons.IH obtain s' where "run_steps E n d ep steps s1 = Inr s'" by blast
  with 1 have "run_steps E n d ep (st # steps) s = Inr s'" by simp
  then show ?case by (rule exI)
qed

lemma run_epochs_succeeds:
  fixes s :: "'m tstate"
  assumes n0: "n \<noteq> 0" and ev: "\<And>m. \<exists>r. evaluate E m = Inr r"
  shows "\<exists>s'. run_epochs E n d epochs s = Inr s'"
proof (induction epochs arbitrary: s)
  case Nil
  show ?case by simp
next
  case (Cons ep epochs)
  from run_steps_succeeds [OF n0 ev] obtain s1 where
    1: "run_steps E n d ep [0..<len_train_dataloader E]
          (s\<lparr>epoch_var := Some ep, trace := trace s @ [Call ModelTrain]\<rparr>) = Inr s1"
    by blast
  from Cons.IH obtain s' where "run_epochs E n d epochs s1 = Inr s'" by blast
  with 1 have "run_epochs E n d (ep # epochs) s = Inr s'" by simp
  then show ?case by (rule exI)
qed

lemma train_loop_succeeds:
  assumes b: "bsz \<noteq> 0" and n0: "\<lceil>real (len_dataset E) / real_of_int bsz\<rceil> \<noteq> 0"
    and ev: "\<And>m. \<exists>r. evaluate E m = Inr r"
    and ne: "0 < ne" and L: "0 < len_train_dataloader E"
  shows "\<exists>s. train_loop E ne bsz data mn rn m0 = Inr s"
proof -
  let ?s0 = "\<lparr>model = m0, data_count = 0, absolute_step = 0, epoch_var = None,
              step_var = None, trace = []\<rparr>"
  from run_epochs_succeeds [OF n0 ev] obtain s1 where
    r: "run_epochs E \<lceil>real (len_dataset E) / real_of_int bsz\<rceil> (checkpoint_dir data mn rn)
          [0..<ne] ?s0 = Inr s1"
    by blast
  note rng = run_epochs_range [OF r ne L]
  have "train_loop E ne bsz data mn rn m0 =
      Inr (s1\<lparr>trace := trace s1
             @ save_checkpoint (model s1) (ne - 1) (len_train_dataloader E - 1)
                 (checkpoint_dir data mn rn (absolute_step s1))
             @ [Call EndTraining]\<rparr>)"
    using b r rng(4) rng(5) by (simp add: train_loop_def Let_def)
  then show ?thesis by (rule exI)
qed

lemma const_env_evaluate: "\<exists>r. evaluate (const_env L c fmax) m = Inr r"
  by (simp add: evaluate_def const_env_def Let_def try_exp_def ieee_exp_def item_def)

lemma const_env_fields:
  "len_train_dataloader (const_env L c fmax) = L"
  "len_dataset (const_env L c fmax) = 32 * L"
  by (simp_all add: const_env_def)

lemma const_env_steps_per_epoch:
  "0 < L \<Longrightarrow> \<lceil>real (len_dataset (const_env L c fmax)) / real_of_int 32\<rceil> \<noteq> 0"
  by (simp add: const_env_fields)

lemma const_env_train_loop:
  assumes "0 < ne" and "0 < L"
  shows "\<exists>s. train_loop (const_env L c fmax) ne 32 data mn rn () = Inr s"
proof (rule train_loop_succeeds)
  show "(32::int) \<noteq> 0" by simp
  show "\<lceil>real (len_dataset (const_env L c fmax)) / real_of_int 32\<rceil> \<noteq> 0"
    using assms(2) by (rule const_env_steps_per_epoch)
  show "\<exists>r. evaluate (const_env L c fmax) m = Inr r" for m
    by (rule const_env_evaluate)
  show "0 < ne" by (rule assms)
  show "0 < len_train_dataloader (const_env L c fmax)"
    using assms(2) by (simp add: const_env_fields)
qed

lemma digit_char_value: "d < 10 \<Longrightarrow> of_char (digit_char d) - 48 = d"
  by (simp add: digit_char_def)

lemma digits_value_snoc:
  "digits_value (cs @ [c]) = 10 * digits_value cs + (of_char c - 48)"
  by (simp add: digits_value_def)

lemma digits_value_str_nat: "digits_value (str_nat n) = n"
proof (induction n rule: str_nat.induct)
  case (1 n)
  show ?case
  proof (cases "n < 10")
    case True
    then have "str_nat n = [digit_char n]" by (subst str_nat.simps) simp
    with True show ?thesis by (simp add: digits_value_def digit_char_value)
  next
    case False
    then have s: "str_nat n = str_nat (n div 10) @ [digit_char (n mod 10)]"
      by (subst str_nat.simps) simp
    from False "1.IH" have "digits_value (str_nat (n div 10)) = n div 10" by simp
    then show ?thesis
      by (simp add: s digits_value_snoc digit_char_value)
  qed
qed

lemma str_nat_inj: "str_nat a = str_nat b \<Longrightarrow> a = b"
proof -
  assume "str_nat a = str_nat b"
  then have "digits_value (str_nat a) = digits_value (str_nat b)" by simp
  then show "a = b" by (simp only: digits_value_str_nat)
qed

lemma str_nat_last: "str_nat n \<noteq> [] \<and> last (str_nat n) = digit_char (n mod 10)"
proof (cases "n < 10")
  case True
  then have "str_nat n = [digit_char n]" by (subst str_nat.simps) simp
  with True show ?thesis by simp
next
  case False
  then have "str_nat n = str_nat (n div 10) @ [digit_char (n mod 10)]"
    by (subst str_nat.simps) simp
  then show ?thesis by simp
qed

lemma digit_char_not_s: "d < 10 \<Longrightarrow> digit_char d \<noteq> CHR ''s''"
proof
  assume d: "d < 10" and "digit_char d = CHR ''s''"
  then have "of_char (digit_char d) = (of_char (CHR ''s'') :: nat)" by simp
  with d show False by (simp add: digit_char_def)
qed

lemma split_on_not_Nil: "split_on c xs \<noteq> []"
  by (induction xs) (auto split: list.splits)

lemma split_on_no_sep: "c \<notin> set w \<Longrightarrow> split_on c w = [w]"
  by (induction w) auto

lemma split_on_snoc:
  "c \<notin> set w \<Longrightarrow> split_on c (p @ c # w) = split_on c p @ [w]"
proof (induction p)
  case Nil
  then show ?case by (simp add: split_on_no_sep)
next
  case (Cons x p)
  then show ?case
    using split_on_not_Nil [of c p] by (cases "split_on c p") auto
qed

lemma join_path_snoc:
  "join_path (us @ [w]) = (if us = [] then w else join_path us @ ''/'' @ w)"
  by (induction us rule: join_path.induct) auto

lemma digit_char_not_slash: "d < 10 \<Longrightarrow> digit_char d \<noteq> CHR ''/''"
proof
  assume d: "d < 10" and "digit_char d = CHR ''/''"
  then have "of_char (digit_char d) = (of_char (CHR ''/'') :: nat)" by simp
  with d show False by (simp add: digit_char_def)
qed

lemma str_nat_no_slash: "CHR ''/'' \<notin> set (str_nat n)"
proof (induction n rule: str_nat.induct)
  case (1 n)
  show ?case
  proof (cases "n < 10")
    case True
    then have "str_nat n = [digit_char n]" by (subst str_nat.simps) simp
    with True show ?thesis using digit_char_not_slash [of n] by auto
  next
    case False
    then have s: "str_nat n = str_nat (n div 10) @ [digit_char (n mod 10)]"
      by (subst str_nat.simps) simp
    have "n mod 10 < 10" by simp
    then have "digit_char (n mod 10) \<noteq> CHR ''/''" by (rule digit_char_not_slash)
    with False "1.IH" show ?thesis unfolding s by auto
  qed
qed

lemma checkpoint_dir_shape:
  "checkpoint_dir data mn rn k = checkpoint_base data mn rn @ ''/checkpoint_'' @ str_nat k"
proof -
  let ?p = "''/om2/user/jackking/MyData/mt/miniberta_'' @ data @ ''/'' @ mn @ ''/'' @ rn"
  let ?w = "''checkpoint_'' @ str_nat k"
  have w: "CHR ''/'' \<notin> set ?w" using str_nat_no_slash [of k] by simp
  have e: "''/om2/user/jackking/MyData/mt/miniberta_'' @ data @ ''/'' @ mn @ ''/''
       @ rn @ ''/checkpoint_'' @ str_nat k = ?p @ CHR ''/'' # ?w" by simp
  have s: "split_on CHR ''/'' (?p @ CHR ''/'' # ?w) = split_on CHR ''/'' ?p @ [?w]"
    using w by (rule split_on_snoc)
  have f: "filter (\<lambda>w. w \<noteq> [] \<and> w \<noteq> ''.'') (split_on CHR ''/'' ?p @ [?w])
      = filter (\<lambda>w. w \<noteq> [] \<and> w \<noteq> ''.'') (split_on CHR ''/'' ?p) @ [?w]" by simp
  show ?thesis
    unfolding checkpoint_dir_def posix_path_def e s f join_path_snoc checkpoint_base_def Let_def
    by simp
qed

lemma checkpoint_dir_inj:
  "checkpoint_dir data mn rn a = checkpoint_dir data mn rn b \<longleftrightarrow> a = b"
  by (auto simp: checkpoint_dir_shape dest: str_nat_inj)

lemma checkpoint_dir_last:
  "last (checkpoint_dir data mn rn a) = digit_char (a mod 10)"
  using str_nat_last [of a] by (simp add: checkpoint_dir_shape)

lemma checkpoint_dir_not_states:
  "checkpoint_dir data mn rn a \<noteq> checkpoint_dir data mn rn b @ ''/accelerator_states''"
proof
  assume "checkpoint_dir data mn rn a = checkpoint_dir data mn rn b @ ''/accelerator_states''"
  then have "last (checkpoint_dir data mn rn a)
      = last (checkpoint_dir data mn rn b @ ''/accelerator_states'')" by simp
  then have "digit_char (a mod 10) = CHR ''s''"
    by (simp add: checkpoint_dir_last)
  moreover have "a mod 10 < 10" by simp
  ultimately show False using digit_char_not_s by blast
qed

lemma checkpoint_paths_member:
  "p \<in> set (concat (map (checkpoint_paths d) ks)) \<longleftrightarrow>
     (\<exists>k\<in>set ks. p = d k \<or> p = d k @ ''/accelerator_states'')"
  by (auto simp: checkpoint_paths_def)

lemma distinct_checkpoint_paths:
  assumes "distinct ks"
  shows "distinct (concat (map (checkpoint_paths (checkpoint_dir data mn rn)) ks))"
  using assms
proof (induction ks)
  case Nil
  show ?case by simp
next
  case (Cons k ks)
  let ?d = "checkpoint_dir data mn rn"
  from Cons have ih: "distinct (concat (map (checkpoint_paths ?d) ks))" and k: "k \<notin> set ks"
    by simp_all
  have 1: "?d k \<notin> set (concat (map (checkpoint_paths ?d) ks))"
  proof
    assume "?d k \<in> set (concat (map (checkpoint_paths ?d) ks))"
    then obtain j where j: "j \<in> set ks"
      and "?d k = ?d j \<or> ?d k = ?d j @ ''/accelerator_states''"
      unfolding checkpoint_paths_member by blast
    then have "?d k = ?d j"
      using checkpoint_dir_not_states [of data mn rn k j] by blast
    then have "k = j" by (simp only: checkpoint_dir_inj)
    with j k show False by simp
  qed
  have 2: "?d k @ ''/accelerator_states'' \<notin> set (concat (map (checkpoint_paths ?d) ks))"
  proof
    assume "?d k @ ''/accelerator_states'' \<in> set (concat (map (checkpoint_paths ?d) ks))"
    then obtain j where j: "j \<in> set ks"
      and "?d k @ ''/accelerator_states'' = ?d j \<or>
           ?d k @ ''/accelerator_states'' = ?d j @ ''/accelerator_states''"
      unfolding checkpoint_paths_member by blast
    then have "?d k @ ''/accelerator_states'' = ?d j @ ''/accelerator_states''"
      using checkpoint_dir_not_states [of data mn rn j k] by metis
    then have "?d k = ?d j" by simp
    then have "k = j" by (simp only: checkpoint_dir_inj)
    with j k show False by simp
  qed
  have 3: "?d k \<noteq> ?d k @ ''/accelerator_states''" by simp
  have c: "concat (map (checkpoint_paths ?d) (k # ks)) =
      ?d k # (?d k @ ''/accelerator_states'') # concat (map (checkpoint_paths ?d) ks)"
    by (simp add: checkpoint_paths_def)
  from ih 1 2 3 show ?case
    unfolding c by simp
qed

lemma update_calls_train_loop:
  fixes s :: "'m tstate"
  assumes "train_loop E ne bsz data mn rn m0 = Inr s"
  shows "update_calls (trace s) =
           concat (replicate (ne * len_train_dataloader E)
                     [Backward, SchedulerStep, OptimizerStep, ZeroGrad])"
proof -
  from train_loop_summary(4) [OF assms] obtain evs where
    t: "trace s = evs @ save_checkpoint (model s) (ne - 1) (len_train_dataloader E - 1)
          (checkpoint_dir data mn rn (ne * len_train_dataloader E)) @ [Call EndTraining]"
    and g: "segment_ok (checkpoint_dir data mn rn) 0 (ne * len_train_dataloader E) evs"
    by blast
  from g have "update_calls evs = concat (replicate (ne * len_train_dataloader E)
                     [Backward, SchedulerStep, OptimizerStep, ZeroGrad])"
    unfolding segment_ok_def by (rule conjunct1)
  then show ?thesis
    unfolding t by (simp add: save_checkpoint_proj)
qed

lemma log_steps_train_loop:
  fixes s :: "'m tstate"
  assumes "train_loop E ne bsz data mn rn m0 = Inr s"
  shows "log_steps (trace s) =
           concat (map (\<lambda>k. if k mod eval_interval = 0 then [k, k, k, k, k, k] else [k, k, k, k])
                     [Suc 0..<Suc (ne * len_train_dataloader E)])"
proof -
  from train_loop_summary(4) [OF assms] obtain evs where
    t: "trace s = evs @ save_checkpoint (model s) (ne - 1) (len_train_dataloader E - 1)
          (checkpoint_dir data mn rn (ne * len_train_dataloader E)) @ [Call EndTraining]"
    and g: "segment_ok (checkpoint_dir data mn rn) 0 (ne * len_train_dataloader E) evs"
    by blast
  from g have "log_steps evs =
           concat (map (\<lambda>k. if k mod eval_interval = 0 then [k, k, k, k, k, k] else [k, k, k, k])
                     [Suc 0..<Suc (0 + ne * len_train_dataloader E)])"
    unfolding segment_ok_def by (rule conjunct2 [THEN conjunct1])
  then show ?thesis
    unfolding t by (simp add: save_checkpoint_proj)
qed

lemma write_paths_train_loop:
  fixes s :: "'m tstate"
  assumes "train_loop E ne bsz data mn rn m0 = Inr s"
  shows "write_paths (trace s) =
           concat (map (checkpoint_paths (checkpoint_dir data mn rn))
                     (filter (\<lambda>k. k mod checkpoint_interval = 0)
                        [Suc 0..<Suc (ne * len_train_dataloader E)]))
           @ checkpoint_paths (checkpoint_dir data mn rn) (ne * len_train_dataloader E)"
proof -
  from train_loop_summary(4) [OF assms] obtain evs where
    t: "trace s = evs @ save_checkpoint (model s) (ne - 1) (len_train_dataloader E - 1)
          (checkpoint_dir data mn rn (ne * len_train_dataloader E)) @ [Call EndTraining]"
    and g: "segment_ok (checkpoint_dir data mn rn) 0 (ne * len_train_dataloader E) evs"
    by blast
  from g have "write_paths evs =
       concat (map (checkpoint_paths (checkpoint_dir data mn rn))
                 (filter (\<lambda>k. k mod checkpoint_interval = 0)
                    [Suc 0..<Suc (0 + ne * len_train_dataloader E)]))"
    unfolding segment_ok_def by (rule conjunct2 [THEN conjunct2, THEN conjunct1])
  then show ?thesis
    unfolding t by (simp add: save_checkpoint_proj checkpoint_paths_def)
qed

lemma validation_logs_train_loop:
  fixes s :: "'m tstate"
  assumes "train_loop E ne bsz data mn rn m0 = Inr s"
  shows "set (log_keys (trace s)) \<subseteq> metric_keys"
    and "map fst (logged_under ''validation/valid_accuracy'' (trace s))
           = map LXFloat (printed_perplexities (trace s))"
    and "map snd (logged_under ''validation/valid_accuracy'' (trace s))
           = filter (\<lambda>k. k mod eval_interval = 0) [Suc 0..<Suc (ne * len_train_dataloader E)]"
proof -
  from train_loop_summary(4) [OF assms] obtain evs where
    t: "trace s = evs @ save_checkpoint (model s) (ne - 1) (len_train_dataloader E - 1)
          (checkpoint_dir data mn rn (ne * len_train_dataloader E)) @ [Call EndTraining]"
    and g: "segment_ok (checkpoint_dir data mn rn) 0 (ne * len_train_dataloader E) evs"
    by blast
  from g have 1: "set (log_keys evs) \<subseteq> metric_keys"
    and 2: "map fst (logged_under ''validation/valid_accuracy'' evs)
       = map LXFloat (printed_perplexities evs)"
    and 3: "map snd (logged_under ''validation/valid_accuracy'' evs)
       = filter (\<lambda>k. k mod eval_interval = 0) [Suc 0..<Suc (0 + ne * len_train_dataloader E)]"
    unfolding segment_ok_def by simp_all
  from 1 show "set (log_keys (trace s)) \<subseteq> metric_keys"
    unfolding t by (simp add: save_checkpoint_proj)
  from 2 show "map fst (logged_under ''validation/valid_accuracy'' (trace s))
           = map LXFloat (printed_perplexities (trace s))"
    unfolding t by (simp add: save_checkpoint_proj)
  from 3 show "map snd (logged_under ''validation/valid_accuracy'' (trace s))
           = filter (\<lambda>k. k mod eval_interval = 0) [Suc 0..<Suc (ne * len_train_dataloader E)]"
    unfolding t by (simp add: save_checkpoint_proj)
qed

lemma step_entries_set:
  "set (concat (map (\<lambda>k. if k mod eval_interval = 0 then [k, k, k, k, k, k] else [k, k, k, k])
                 [a..<b])) = {a..<b}"
  by (induction b) auto

lemma step_entries_sorted:
  "sorted (concat (map (\<lambda>k. if k mod eval_interval = 0 then [k, k, k, k, k, k] else [k, k, k, k])
                 [a..<b]))"
proof (induction b)
  case 0
  show ?case by simp
next
  case (Suc b)
  let ?f = "\<lambda>k::nat. if k mod eval_interval = 0 then [k, k, k, k, k, k] else [k, k, k, k]"
  show ?case
  proof (cases "a \<le> b")
    case False
    then show ?thesis by simp
  next
    case True
    then have u: "[a..<Suc b] = [a..<b] @ [b]" by simp
    have s: "sorted (?f b)" by simp
    have "\<forall>x\<in>set (concat (map ?f [a..<b])). \<forall>y\<in>set (?f b). x \<le> y"
      unfolding step_entries_set by auto
    with Suc s show ?thesis
      unfolding u by (simp only: map_append concat_append sorted_append list.map concat.simps
          append_Nil2 simp_thms)
  qed
qed

lemma step_entries_remdups_adj:
  "remdups_adj (concat (map (\<lambda>k. if k mod eval_interval = 0 then [k, k, k, k, k, k]
                                   else [k, k, k, k]) [a..<b])) = [a..<b]"
proof (induction b)
  case 0
  show ?case by simp
next
  case (Suc b)
  let ?f = "\<lambda>k::nat. if k mod eval_interval = 0 then [k, k, k, k, k, k] else [k, k, k, k]"
  show ?case
  proof (cases "a \<le> b")
    case False
    then show ?thesis by simp
  next
    case True
    then have u: "[a..<Suc b] = [a..<b] @ [b]" by simp
    let ?P = "concat (map ?f [a..<b])"
    have c: "concat (map ?f [a..<Suc b]) = ?P @ ?f b"
      unfolding u by simp
    have r: "remdups_adj (?f b) = [b]" by simp
    have h: "hd (?f b) = b" by simp
    have "?P = [] \<or> ?f b = [] \<or> last ?P \<noteq> hd (?f b)"
    proof (cases "?P = []")
      case True
      then show ?thesis by (rule disjI1)
    next
      case False
      then have "last ?P \<in> set ?P" by (rule last_in_set)
      then have "last ?P \<in> {a..<b}" unfolding step_entries_set .
      then have "last ?P \<noteq> b" by simp
      then show ?thesis unfolding h by blast
    qed
    then have "remdups_adj (?P @ ?f b) = remdups_adj ?P @ remdups_adj (?f b)"
      by (rule remdups_adj_append')
    then show ?thesis
      unfolding c r Suc.IH u by simp
  qed
qed

lemma metric_keys_not_perplexity: "k \<in> metric_keys \<Longrightarrow> \<not> contains ''perplexity'' k"
  by (auto simp: metric_keys_def)

section \<open>Properties of the training loop\<close>

text \<open>
  C2, as the code has it. In every round of the inner loop, whatever the accumulation
  state, the loop calls the backward pass, then the scheduler step, then the optimizer
  step, then the clearing of the gradients, each once: over a run of \<open>num_epochs\<close> passes
  of \<open>len(train_dataloader)\<close> batches the calls are that group of four, repeated once
  per batch. Whether a call takes effect at the accumulation threshold is decided inside
  the accelerator's wrappers, outside the repository.
\<close>

theorem scheduler_steps_before_optimizer:
  fixes s :: "'m tstate"
  assumes "train_loop E ne bsz data mn rn m0 = Inr s"
  shows "update_calls (trace s) =
           concat (replicate (ne * len_train_dataloader E)
                     [Backward, SchedulerStep, OptimizerStep, ZeroGrad])"
  using assms by (rule update_calls_train_loop)

theorem scheduler_steps_before_optimizer_witness:
  "\<exists>s. train_loop (const_env 3 0 1) 2 32 ''100M'' ''768-768'' ''reg_loss'' () = Inr s \<and>
       update_calls (trace s) =
         concat (replicate (2 * len_train_dataloader (const_env 3 0 1))
                   [Backward, SchedulerStep, OptimizerStep, ZeroGrad])"
proof -
  obtain s where s: "train_loop (const_env 3 0 1) 2 32 ''100M'' ''768-768'' ''reg_loss'' () = Inr s"
    using const_env_train_loop [of 2 3 0 1 "''100M''" "''768-768''" "''reg_loss''"] by auto
  from s scheduler_steps_before_optimizer [OF s] show ?thesis by blast
qed

text \<open>
  C2 as stated fails: in the run of one epoch over one batch, the scheduler step comes
  before the optimizer step, not after the clearing of the gradients.
\<close>

theorem optimizer_first_counterexample:
  "map_sum id (update_calls \<circ> trace)
     (train_loop (const_env 1 0 1) 1 32 ''100M'' ''768-768'' ''reg_loss'' ())
   = Inr [Backward, SchedulerStep, OptimizerStep, ZeroGrad]"
proof -
  obtain s where s: "train_loop (const_env 1 0 1) 1 32 ''100M'' ''768-768'' ''reg_loss'' () = Inr s"
    using const_env_train_loop [of 1 1 0 1 "''100M''" "''768-768''" "''reg_loss''"] by auto
  from update_calls_train_loop [OF s] have
    "update_calls (trace s) = [Backward, SchedulerStep, OptimizerStep, ZeroGrad]"
    by (simp add: const_env_fields)
  with s show ?thesis by simp
qed

text \<open>
  C7, as the code has it. Every round logs its four training metrics, and its two
  validation metrics when validation is due, all under the one step index of the round.
  The step indices of the logged entries are therefore non-decreasing, not strictly
  increasing; round after round the index goes up by exactly one, from 1 to the number of
  rounds, so that no index is skipped and none comes back once the next has been used.
\<close>

theorem log_steps_in_order:
  fixes s :: "'m tstate"
  assumes "train_loop E ne bsz data mn rn m0 = Inr s"
  shows "log_steps (trace s) =
           concat (map (\<lambda>k. if k mod eval_interval = 0 then [k, k, k, k, k, k] else [k, k, k, k])
                     [Suc 0..<Suc (ne * len_train_dataloader E)]) \<and>
         sorted (log_steps (trace s)) \<and>
         remdups_adj (log_steps (trace s)) = [Suc 0..<Suc (ne * len_train_dataloader E)]"
  unfolding log_steps_train_loop [OF assms]
  by (intro conjI refl step_entries_sorted step_entries_remdups_adj)

theorem log_steps_in_order_witness:
  "\<exists>s. train_loop (const_env 3 0 1) 2 32 ''100M'' ''768-768'' ''reg_loss'' () = Inr s \<and>
       sorted (log_steps (trace s)) \<and>
       remdups_adj (log_steps (trace s)) = [1, 2, 3, 4, 5, 6]"
proof -
  obtain s where s: "train_loop (const_env 3 0 1) 2 32 ''100M'' ''768-768'' ''reg_loss'' () = Inr s"
    using const_env_train_loop [of 2 3 0 1 "''100M''" "''768-768''" "''reg_loss''"] by auto
  have "[Suc 0..<Suc (2 * len_train_dataloader (const_env 3 0 1))] = [1, 2, 3, 4, 5, 6]"
    by (simp add: const_env_fields upt_rec)
  with s log_steps_in_order [OF s] show ?thesis by auto
qed

text \<open>
  C7 as stated fails: the run of one epoch over one batch logs four entries, all with
  step index 1.
\<close>

theorem log_steps_repeat_counterexample:
  "map_sum id (log_steps \<circ> trace)
     (train_loop (const_env 1 0 1) 1 32 ''100M'' ''768-768'' ''reg_loss'' ())
   = Inr [1, 1, 1, 1] \<and> \<not> sorted_wrt (<) [1, 1, 1, 1 :: nat]"
proof -
  obtain s where s: "train_loop (const_env 1 0 1) 1 32 ''100M'' ''768-768'' ''reg_loss'' () = Inr s"
    using const_env_train_loop [of 1 1 0 1 "''100M''" "''768-768''" "''reg_loss''"] by auto
  from log_steps_train_loop [OF s] have "log_steps (trace s) = [1, 1, 1, 1]"
    by (simp add: const_env_fields eval_interval_def)
  with s show ?thesis by simp
qed

text \<open>
  C10. \<open>evaluate\<close> prints and returns the perplexity. In a run, the values logged under
  \<open>validation/valid_accuracy\<close> are, in order, the perplexities the evaluations returned,
  one at every step index that is a multiple of 200; and every key the run logs under is
  one of six, none of which contains \<open>perplexity\<close>.
\<close>

theorem valid_accuracy_is_perplexity:
  fixes s :: "'m tstate"
  assumes "train_loop E ne bsz data mn rn m0 = Inr s"
  shows "(\<forall>m r evs. evaluate E m = Inr (r, evs) \<longrightarrow> printed_perplexities evs = [snd r]) \<and>
         map fst (logged_under ''validation/valid_accuracy'' (trace s))
           = map LXFloat (printed_perplexities (trace s)) \<and>
         map snd (logged_under ''validation/valid_accuracy'' (trace s))
           = filter (\<lambda>k. k mod eval_interval = 0) [Suc 0..<Suc (ne * len_train_dataloader E)] \<and>
         set (log_keys (trace s)) \<subseteq> metric_keys \<and>
         (\<forall>k\<in>set (log_keys (trace s)). \<not> contains ''perplexity'' k)"
proof -
  have 1: "\<forall>m r evs. evaluate E m = Inr (r, evs) \<longrightarrow> printed_perplexities evs = [snd r]"
  proof (intro allI impI)
    fix m r evs
    assume "evaluate E m = Inr (r, evs)"
    then have "evs = [Call ModelEval, Print (fst r) (snd r)]" by (rule evaluate_events)
    then show "printed_perplexities evs = [snd r]" by simp
  qed
  note v = validation_logs_train_loop [OF assms]
  have 5: "\<forall>k\<in>set (log_keys (trace s)). \<not> contains ''perplexity'' k"
    using v(1) metric_keys_not_perplexity by blast
  from 1 v(2) v(3) v(1) 5 show ?thesis by (intro conjI)
qed

theorem valid_accuracy_is_perplexity_witness:
  "\<exists>s. train_loop (const_env 200 0 1) 1 32 ''100M'' ''768-768'' ''reg_loss'' () = Inr s \<and>
       map fst (logged_under ''validation/valid_accuracy'' (trace s))
         = map LXFloat (printed_perplexities (trace s)) \<and>
       map snd (logged_under ''validation/valid_accuracy'' (trace s))
         = filter (\<lambda>k. k mod eval_interval = 0)
             [Suc 0..<Suc (1 * len_train_dataloader (const_env 200 0 1))] \<and>
       (\<forall>k\<in>set (log_keys (trace s)). \<not> contains ''perplexity'' k)"
proof -
  obtain s where s: "train_loop (const_env 200 0 1) 1 32 ''100M'' ''768-768'' ''reg_loss'' () = Inr s"
    using const_env_train_loop [of 1 200 0 1 "''100M''" "''768-768''" "''reg_loss''"] by auto
  from s valid_accuracy_is_perplexity [OF s] show ?thesis by blast
qed

end
